theory Spec2Isabelle
  imports Main "HOL-Library.Sublist" "HOL-Library.Word"
begin

section \<open>Text primitives of the Python runtime\<close>

text \<open>
  A Python \<open>str\<close> is modelled as a \<open>string\<close>; a \<open>char\<close> stands for the code point of
  the same number (U+0000 to U+00FF). The character classes below are those of the
  Python runtime on that range.
\<close>

datatype py_error = IndexError | UnicodeDecodeError | OSError

definition newline :: char where
  "newline = CHR 0x0A"

definition is_space :: "char \<Rightarrow> bool" where
  \<comment> \<open>\<open>str.isspace\<close>: the characters \<open>str.split()\<close> and \<open>str.strip()\<close> treat as blank.\<close>
  "is_space c = ((of_char c :: nat) \<in> {9, 10, 11, 12, 13, 28, 29, 30, 31, 32, 133, 160})"

definition is_digit :: "char \<Rightarrow> bool" where
  \<comment> \<open>the class \<open>[0-9]\<close>\<close>
  "is_digit c = (48 \<le> (of_char c :: nat) \<and> (of_char c :: nat) \<le> 57)"

definition is_upper_digit :: "char \<Rightarrow> bool" where
  \<comment> \<open>the class \<open>[A-Z0-9]\<close>\<close>
  "is_upper_digit c = ((65 \<le> (of_char c :: nat) \<and> (of_char c :: nat) \<le> 90) \<or> is_digit c)"

definition is_word :: "char \<Rightarrow> bool" where
  \<comment> \<open>the class \<open>\w\<close> of a \<open>str\<close> pattern: alphanumeric code points and the underscore\<close>
  "is_word c =
     (let n = (of_char c :: nat) in
        (48 \<le> n \<and> n \<le> 57) \<or> (65 \<le> n \<and> n \<le> 90) \<or> n = 95 \<or> (97 \<le> n \<and> n \<le> 122)
        \<or> n = 170 \<or> n = 178 \<or> n = 179 \<or> n = 181 \<or> n = 185 \<or> n = 186
        \<or> (188 \<le> n \<and> n \<le> 190) \<or> (192 \<le> n \<and> n \<le> 214)
        \<or> (216 \<le> n \<and> n \<le> 246) \<or> (248 \<le> n \<and> n \<le> 255))"

definition py_nth :: "'a list \<Rightarrow> nat \<Rightarrow> py_error + 'a" where
  \<comment> \<open>\<open>xs[i]\<close> for a literal index \<open>i \<ge> 0\<close>: IndexError out of range\<close>
  "py_nth xs i = (if i < length xs then Inr (xs ! i) else Inl IndexError)"

definition startswith :: "string \<Rightarrow> string \<Rightarrow> bool" where
  "startswith s p = prefix p s"

fun split_on :: "char \<Rightarrow> string \<Rightarrow> string list" where
  \<comment> \<open>\<open>s.split(sep)\<close> for a separator of one character: never empty, keeps empty pieces\<close>
  "split_on sep [] = [[]]"
| "split_on sep (c # cs) =
     (if c = sep then [] # split_on sep cs
      else (case split_on sep cs of [] \<Rightarrow> [[c]] | l # ls \<Rightarrow> (c # l) # ls))"

function split_ws :: "string \<Rightarrow> string list" where
  \<comment> \<open>\<open>s.split()\<close>: the maximal runs of non-blank characters\<close>
  "split_ws [] = []"
| "split_ws (c # cs) =
     (if is_space c then split_ws cs
      else (c # takeWhile (\<lambda>x. \<not> is_space x) cs) # split_ws (dropWhile (\<lambda>x. \<not> is_space x) cs))"
  by pat_completeness auto
termination
  by (relation "measure length") (auto simp: less_Suc_eq_le length_dropWhile_le)

definition strip :: "string \<Rightarrow> string" where
  \<comment> \<open>\<open>s.strip()\<close>\<close>
  "strip s = rev (dropWhile is_space (rev (dropWhile is_space s)))"

definition strip_chars :: "char \<Rightarrow> string \<Rightarrow> string" where
  \<comment> \<open>\<open>s.strip(c)\<close> for one character \<open>c\<close>\<close>
  "strip_chars c s = rev (dropWhile (\<lambda>x. x = c) (rev (dropWhile (\<lambda>x. x = c) s)))"

fun join :: "string \<Rightarrow> string list \<Rightarrow> string" where
  \<comment> \<open>\<open>sep.join(xs)\<close>\<close>
  "join sep [] = []"
| "join sep [x] = x"
| "join sep (x # y # ys) = x @ sep @ join sep (y # ys)"

subsection \<open>Regular expressions and \<open>re.match\<close>\<close>

datatype cclass = Word | UpperDigit | Digit | AnyButNewline | Lit char

fun cmem :: "cclass \<Rightarrow> char \<Rightarrow> bool" where
  "cmem Word c = is_word c"
| "cmem UpperDigit c = is_upper_digit c"
| "cmem Digit c = is_digit c"
| "cmem AnyButNewline c = (c \<noteq> newline)"
| "cmem (Lit a) c = (c = a)"

datatype regex = Zero | One | Atom cclass | Alt regex regex | Seq regex regex | Star regex

definition Plus :: "regex \<Rightarrow> regex" where
  \<comment> \<open>\<open>r+\<close>\<close>
  "Plus r = Seq r (Star r)"

fun nullable :: "regex \<Rightarrow> bool" where
  "nullable Zero = False"
| "nullable One = True"
| "nullable (Atom k) = False"
| "nullable (Alt r s) = (nullable r \<or> nullable s)"
| "nullable (Seq r s) = (nullable r \<and> nullable s)"
| "nullable (Star r) = True"

fun deriv :: "char \<Rightarrow> regex \<Rightarrow> regex" where
  "deriv c Zero = Zero"
| "deriv c One = Zero"
| "deriv c (Atom k) = (if cmem k c then One else Zero)"
| "deriv c (Alt r s) = Alt (deriv c r) (deriv c s)"
| "deriv c (Seq r s) =
     (if nullable r then Alt (Seq (deriv c r) s) (deriv c s) else Seq (deriv c r) s)"
| "deriv c (Star r) = Seq (deriv c r) (Star r)"

fun full_match :: "regex \<Rightarrow> string \<Rightarrow> bool" where
  \<comment> \<open>the whole of the text is a word of the expression\<close>
  "full_match r [] = nullable r"
| "full_match r (c # cs) = full_match (deriv c r) cs"

fun prefix_match :: "regex \<Rightarrow> string \<Rightarrow> bool" where
  \<comment> \<open>\<open>re.match(r, s)\<close> succeeds: some prefix of the text is a word of the expression\<close>
  "prefix_match r [] = nullable r"
| "prefix_match r (c # cs) = (nullable r \<or> prefix_match (deriv c r) cs)"

definition dollar_match :: "regex \<Rightarrow> string \<Rightarrow> bool" where
  \<comment> \<open>\<open>re.match(r + "$", s)\<close> succeeds: \<open>$\<close> holds at the end of the text and just before
      a newline that ends it\<close>
  "dollar_match r s =
     (full_match r s \<or> (s \<noteq> [] \<and> last s = newline \<and> full_match r (butlast s)))"

section \<open>The commit message checker (check\_mr\_logs.py)\<close>

definition header_pattern :: regex where
  \<comment> \<open>\<open>^(\w+)\[(\w+)\]: (.+)$\<close> without its final \<open>$\<close>\<close>
  "header_pattern =
     Seq (Plus (Atom Word))
      (Seq (Atom (Lit CHR ''[''))
        (Seq (Plus (Atom Word))
          (Seq (Atom (Lit CHR '']''))
            (Seq (Atom (Lit CHR '':''))
              (Seq (Atom (Lit CHR '' '')) (Plus (Atom AnyButNewline)))))))"

definition jira_pattern :: regex where
  \<comment> \<open>\<open>^[A-Z0-9]+-[0-9]+\<close>\<close>
  "jira_pattern = Seq (Plus (Atom UpperDigit)) (Seq (Atom (Lit CHR ''-'')) (Plus (Atom Digit)))"

definition check_header :: "string \<Rightarrow> py_error + (bool \<times> string)" where
  "check_header commit_msg =
     (case filter (\<lambda>line. line \<noteq> []) (split_on newline commit_msg) of
        [] \<Rightarrow> Inr (False, ''Empty commit message'')
      | header # _ \<Rightarrow>
          if \<not> dollar_match header_pattern header
          then Inr (False, ''Invalid header format. Should be: <type>[<SCOPE>]: <short-summary>'')
          else Inr (True, ''''))"

fun problem_task_loop :: "string list \<Rightarrow> bool" where
  "problem_task_loop [] = False"
| "problem_task_loop (line # rest) =
     (if startswith line ''Problem:'' \<or> startswith line ''Task:'' then True
      else problem_task_loop rest)"

definition check_problem_task_section :: "string \<Rightarrow> py_error + (bool \<times> string)" where
  "check_problem_task_section commit_msg =
     (if \<not> problem_task_loop (split_on newline commit_msg)
      then Inr (False, ''Missing 'Problem/Task:' section'')
      else Inr (True, ''''))"

fun solution_loop :: "string list \<Rightarrow> bool" where
  "solution_loop [] = False"
| "solution_loop (line # rest) =
     (if startswith line ''Solution:'' then True else solution_loop rest)"

definition check_solution_section :: "string \<Rightarrow> py_error + (bool \<times> string)" where
  "check_solution_section commit_msg =
     (if \<not> solution_loop (split_on newline commit_msg)
      then Inr (False, ''Missing 'Solution:' section'')
      else Inr (True, ''''))"

fun test_loop :: "string list \<Rightarrow> bool \<Rightarrow> bool" where
  "test_loop [] section_started = section_started"
| "test_loop (line # rest) section_started =
     (if startswith line ''Test:'' then test_loop rest True
      else test_loop rest section_started)"

definition check_test_section :: "string \<Rightarrow> py_error + (bool \<times> string)" where
  "check_test_section commit_msg =
     (if \<not> test_loop (split_on newline commit_msg) False
      then Inr (False, ''Missing 'Test:' section'')
      else Inr (True, ''''))"

fun jira_loop :: "string list \<Rightarrow> py_error + (bool \<times> string)" where
  \<comment> \<open>the loop of \<open>check_jira_section\<close>: \<open>(section_started, jira)\<close> when it ends\<close>
  "jira_loop [] = Inr (False, '''')"
| "jira_loop (line # rest) =
     (if startswith line ''JIRA:''
      then (case py_nth (split_on CHR '':'' line) 1 of
              Inl e \<Rightarrow> Inl e
            | Inr t \<Rightarrow> Inr (True, strip t))
      else jira_loop rest)"

definition check_jira_section :: "string \<Rightarrow> py_error + (bool \<times> string)" where
  "check_jira_section commit_msg =
     (case jira_loop (split_on newline commit_msg) of
        Inl e \<Rightarrow> Inl e
      | Inr (section_started, jira) \<Rightarrow>
          if \<not> section_started then Inr (False, ''Missing 'JIRA:' section'')
          else if \<not> prefix_match jira_pattern jira
          then Inr (False, ''JIRA reference should be in format: <PROJ-123>'')
          else Inr (True, ''''))"

fun author_loop :: "string list \<Rightarrow> bool \<times> string \<times> string \<Rightarrow> py_error + (bool \<times> string \<times> string)" where
  \<comment> \<open>the loop of \<open>check_author_email\<close> over \<open>(section_started, author, email)\<close>\<close>
  "author_loop [] st = Inr st"
| "author_loop (line # rest) st =
     (if startswith line ''Author:''
      then (case py_nth (split_ws line) 1 of
              Inl e \<Rightarrow> Inl e
            | Inr a \<Rightarrow>
               (case py_nth (split_ws line) 2 of
                  Inl e \<Rightarrow> Inl e
                | Inr m \<Rightarrow> author_loop rest (True, strip a, strip m)))
      else author_loop rest st)"

definition check_author_email :: "string \<Rightarrow> py_error + (bool \<times> string)" where
  "check_author_email commit_msg =
     (case author_loop (split_on newline commit_msg) (False, '''', '''') of
        Inl e \<Rightarrow> Inl e
      | Inr (section_started, author, email) \<Rightarrow>
          if \<not> section_started then Inr (False, ''Missing author or email'')
          else if ''<'' @ author @ ''@is.ic>'' \<noteq> email
          then Inr (False, author @ '' '' @ email @ '': email does not format: <username>@is.ic'')
          else Inr (True, ''''))"

definition checks :: "(string \<Rightarrow> py_error + (bool \<times> string)) list" where
  "checks =
     [check_header, check_problem_task_section, check_solution_section,
      check_test_section, check_jira_section, check_author_email]"

fun run_checks ::
  "(string \<Rightarrow> py_error + (bool \<times> string)) list \<Rightarrow> string \<Rightarrow> string list \<Rightarrow> py_error + string list" where
  \<comment> \<open>the loop of \<open>validate_commit\<close> over \<open>error_msgs\<close>\<close>
  "run_checks [] commit_msg error_msgs = Inr error_msgs"
| "run_checks (check_func # rest) commit_msg error_msgs =
     (case check_func commit_msg of
        Inl e \<Rightarrow> Inl e
      | Inr (is_valid, error_msg) \<Rightarrow>
          run_checks rest commit_msg
            (if \<not> is_valid then error_msgs @ [error_msg] else error_msgs))"

definition validate_commit :: "string \<Rightarrow> py_error + (bool \<times> string list)" where
  "validate_commit commit_msg =
     (case run_checks checks commit_msg [] of
        Inl e \<Rightarrow> Inl e
      | Inr error_msgs \<Rightarrow> if error_msgs \<noteq> [] then Inr (False, error_msgs) else Inr (True, []))"

section \<open>The code format helper (code\_format\_helper.py)\<close>

subsection \<open>\<open>os.path.splitext\<close> of the Python library, on POSIX paths\<close>

definition rfind :: "string \<Rightarrow> char \<Rightarrow> int" where
  \<comment> \<open>\<open>s.rfind(c)\<close>: the last index of \<open>c\<close>, or \<open>-1\<close>\<close>
  "rfind s c =
     (if c \<in> set s then int (length s) - 1 - int (length (takeWhile (\<lambda>x. x \<noteq> c) (rev s)))
      else - 1)"

definition splitext :: "string \<Rightarrow> string \<times> string" where
  \<comment> \<open>the extension starts at the last dot of the last path component, unless only dots
      stand before it in that component\<close>
  "splitext p =
     (let sepIndex = rfind p CHR ''/''; dotIndex = rfind p CHR ''.'' in
      if dotIndex > sepIndex \<and>
         list_ex (\<lambda>x. x \<noteq> CHR ''.'')
           (take (nat (dotIndex - (sepIndex + 1))) (drop (nat (sepIndex + 1)) p))
      then (take (nat dotIndex) p, drop (nat dotIndex) p)
      else (p, []))"

subsection \<open>Captured output and its decoding\<close>

text \<open>
  What a tool leaves on its standard output and standard error is captured as \<open>bytes\<close>.
  \<open>bytes.decode("utf-8")\<close> turns them into a \<open>str\<close>, whose code points go beyond U+00FF
  and are kept as numbers here, or raises \<open>UnicodeDecodeError\<close>: on a byte that cannot
  start a character, on a missing or wrong continuation byte, on an overlong form, on a
  surrogate and above U+10FFFF.
\<close>

type_synonym byte = "8 word"

type_synonym bytes = "byte list"

type_synonym ustring = "nat list"

definition codepoints :: "string \<Rightarrow> ustring" where
  \<comment> \<open>a \<open>str\<close> of the program's own, as code points\<close>
  "codepoints s = map of_char s"

definition print_line :: "ustring \<Rightarrow> ustring" where
  \<comment> \<open>what \<open>print(s)\<close> writes\<close>
  "print_line s = s @ [0x0A]"

definition continuation :: "byte \<Rightarrow> bool" where
  "continuation b = (0x80 \<le> unat b \<and> unat b \<le> 0xBF)"

definition push :: "nat \<Rightarrow> py_error + ustring \<Rightarrow> py_error + ustring" where
  "push cp r = (case r of Inl e \<Rightarrow> Inl e | Inr t \<Rightarrow> Inr (cp # t))"

fun decode_utf8 :: "bytes \<Rightarrow> py_error + ustring" where
  "decode_utf8 [] = Inr []"
| "decode_utf8 (b0 # bs) =
     (let n0 = unat b0 in
      if n0 < 0x80 then push n0 (decode_utf8 bs)
      else if n0 < 0xC2 then Inl UnicodeDecodeError
      else if n0 < 0xE0 then
        (case bs of
           b1 # rest \<Rightarrow>
             if continuation b1
             then push ((n0 - 0xC0) * 64 + (unat b1 - 0x80)) (decode_utf8 rest)
             else Inl UnicodeDecodeError
         | _ \<Rightarrow> Inl UnicodeDecodeError)
      else if n0 < 0xF0 then
        (case bs of
           b1 # b2 # rest \<Rightarrow>
             if continuation b1 \<and> continuation b2
                \<and> (n0 = 0xE0 \<longrightarrow> 0xA0 \<le> unat b1) \<and> (n0 = 0xED \<longrightarrow> unat b1 \<le> 0x9F)
             then push ((n0 - 0xE0) * 4096 + (unat b1 - 0x80) * 64 + (unat b2 - 0x80))
                    (decode_utf8 rest)
             else Inl UnicodeDecodeError
         | _ \<Rightarrow> Inl UnicodeDecodeError)
      else if n0 < 0xF5 then
        (case bs of
           b1 # b2 # b3 # rest \<Rightarrow>
             if continuation b1 \<and> continuation b2 \<and> continuation b3
                \<and> (n0 = 0xF0 \<longrightarrow> 0x90 \<le> unat b1) \<and> (n0 = 0xF4 \<longrightarrow> unat b1 \<le> 0x8F)
             then push ((n0 - 0xF0) * 262144 + (unat b1 - 0x80) * 4096 + (unat b2 - 0x80) * 64
                         + (unat b3 - 0x80))
                    (decode_utf8 rest)
             else Inl UnicodeDecodeError
         | _ \<Rightarrow> Inl UnicodeDecodeError)
      else Inl UnicodeDecodeError)"

definition valid_utf8 :: "bytes \<Rightarrow> bool" where
  \<comment> \<open>the bytes that \<open>bytes.decode("utf-8")\<close> accepts\<close>
  "valid_utf8 b = (\<not> isl (decode_utf8 b))"

subsection \<open>Arguments, processes and helpers\<close>

record FormatArgs =
  start_rev :: "string option"
  end_rev :: "string option"
  changed_files :: "string option"
  py_style_config :: "string option"
  verbose :: bool

record CompletedProcess =
  returncode :: int
  stdout :: bytes
  stderr :: bytes

datatype helper = RuffFormatHelper | ClangFormatHelper

fun name :: "helper \<Rightarrow> string" where
  "name RuffFormatHelper = ''ruff''"
| "name ClangFormatHelper = ''clang-format''"

fun friendly_name :: "helper \<Rightarrow> string" where
  "friendly_name RuffFormatHelper = ''Python code formatter''"
| "friendly_name ClangFormatHelper = ''C/C++ code formatter''"

definition truthy :: "string option \<Rightarrow> bool" where
  \<comment> \<open>the truth value of an \<open>Optional[str]\<close>\<close>
  "truthy v = (case v of None \<Rightarrow> False | Some s \<Rightarrow> s \<noteq> [])"

function show_nat :: "nat \<Rightarrow> string" where
  "show_nat n =
     (if n < 10 then [char_of (48 + n)] else show_nat (n div 10) @ [char_of (48 + n mod 10)])"
  by pat_completeness auto
termination
  by (relation "measure id") auto

definition show_int :: "int \<Rightarrow> string" where
  \<comment> \<open>an integer in an f-string\<close>
  "show_int i = (if i < 0 then CHR ''-'' # show_nat (nat (- i)) else show_nat (nat i))"

subsection \<open>The file filters\<close>

definition should_include_extensionless_file :: "string \<Rightarrow> bool" where
  "should_include_extensionless_file path = startswith path ''libcxx/include''"

definition clang_extensions :: "string list" where
  "clang_extensions =
     [''.cpp'', ''.c'', ''.cc'', ''.h'', ''.hpp'', ''.hxx'', ''.cxx'', ''.inc'', ''.cppm'', ''.cl'']"

fun clang_filter_loop :: "string list \<Rightarrow> string list \<Rightarrow> string list" where
  "clang_filter_loop [] filtered_files = filtered_files"
| "clang_filter_loop (path # rest) filtered_files =
     (let ext = snd (splitext path) in
      if ext \<in> set clang_extensions then clang_filter_loop rest (filtered_files @ [path])
      else if ext = [] \<and> should_include_extensionless_file path
      then clang_filter_loop rest (filtered_files @ [path])
      else clang_filter_loop rest filtered_files)"

fun ruff_filter_loop :: "string list \<Rightarrow> string list \<Rightarrow> string list" where
  "ruff_filter_loop [] filtered_files = filtered_files"
| "ruff_filter_loop (path # rest) filtered_files =
     (let ext = snd (splitext path) in
      if ext = ''.py'' then ruff_filter_loop rest (filtered_files @ [path])
      else ruff_filter_loop rest filtered_files)"

fun filter_changed_files :: "helper \<Rightarrow> string list \<Rightarrow> string list" where
  "filter_changed_files ClangFormatHelper files = clang_filter_loop files []"
| "filter_changed_files RuffFormatHelper files = ruff_filter_loop files []"

subsection \<open>Running a formatter\<close>

text \<open>
  The environment is a map from variable names to values. The external tool is a function
  from the command line to the completed process, or to the error that \<open>subprocess.run\<close>
  raises when the tool cannot be started. A Python \<open>set\<close> is iterated in an order the
  language does not fix: \<open>iter\<close> is that order. A helper returns what it returns or the
  error it raises, together with the text it has written to the standard output by
  then; the standard output is taken to accept every text.
\<close>

definition clang_fmt_path :: "(string \<rightharpoonup> string) \<Rightarrow> string" where
  "clang_fmt_path env =
     (case env ''CLANG_FORMAT_PATH'' of Some p \<Rightarrow> p | None \<Rightarrow> ''git-clang-format'')"

definition ruff_fmt_path :: "(string \<rightharpoonup> string) \<Rightarrow> string" where
  "ruff_fmt_path env = (case env ''RUFF_FORMAT_PATH'' of Some p \<Rightarrow> p | None \<Rightarrow> ''ruff'')"

fun extensions_loop :: "string list \<Rightarrow> string set \<Rightarrow> string set" where
  "extensions_loop [] extensions = extensions"
| "extensions_loop (file # rest) extensions =
     extensions_loop rest (insert (strip_chars CHR ''.'' (snd (splitext file))) extensions)"

definition extensions_arg :: "(string set \<Rightarrow> string list) \<Rightarrow> string list \<Rightarrow> string" where
  \<comment> \<open>the value that follows \<open>--extensions\<close>\<close>
  "extensions_arg iter cpp_files = join '','' (iter (extensions_loop cpp_files {}))"

definition clang_cf_cmd ::
  "(string \<rightharpoonup> string) \<Rightarrow> (string set \<Rightarrow> string list) \<Rightarrow> string list \<Rightarrow> FormatArgs \<Rightarrow> string list" where
  "clang_cf_cmd env iter cpp_files args =
     [clang_fmt_path env, ''--diff'']
     @ (if truthy (start_rev args) \<and> truthy (end_rev args)
        then [the (start_rev args), the (end_rev args)] else [])
     @ [''--extensions'', extensions_arg iter cpp_files]
     @ [''--'']
     @ cpp_files"

definition ruff_cmd :: "(string \<rightharpoonup> string) \<Rightarrow> string list \<Rightarrow> FormatArgs \<Rightarrow> string list" where
  "ruff_cmd env py_files args =
     [ruff_fmt_path env, ''format'', ''--check'', ''--diff'']
     @ (if truthy (py_style_config args) then [''--config'', the (py_style_config args)] else [])
     @ [''--'']
     @ py_files"

definition running_line :: "string list \<Rightarrow> ustring" where
  \<comment> \<open>the line printed before the tool starts, in verbose mode\<close>
  "running_line cmd = print_line (codepoints (''Running: '' @ join '' '' cmd))"

definition exited_line :: "helper \<Rightarrow> CompletedProcess \<Rightarrow> ustring" where
  \<comment> \<open>the line printed when the tool exits with a code other than 0, in verbose mode\<close>
  "exited_line h proc =
     print_line (codepoints (''error: '' @ name h @ '' exited with code '' @ show_int (returncode proc)))"

fun format_run ::
  "helper \<Rightarrow> (string \<rightharpoonup> string) \<Rightarrow> (string set \<Rightarrow> string list)
    \<Rightarrow> (string list \<Rightarrow> py_error + CompletedProcess)
    \<Rightarrow> string list \<Rightarrow> FormatArgs \<Rightarrow> (py_error + ustring option) \<times> ustring" where
  \<comment> \<open>the diff returned or the error raised, and the text written to the standard output\<close>
  "format_run ClangFormatHelper env iter run_proc files args =
     (let cpp_files = filter_changed_files ClangFormatHelper files in
      if cpp_files = [] then (Inr None, [])
      else
        let cf_cmd = clang_cf_cmd env iter cpp_files args;
            out1 = (if verbose args then running_line cf_cmd else [])
        in case run_proc cf_cmd of
             Inl e \<Rightarrow> (Inl e, out1)
           | Inr proc \<Rightarrow>
               (case decode_utf8 (stderr proc) of
                  Inl e \<Rightarrow> (Inl e, out1)
                | Inr err \<Rightarrow>
                    let out2 = out1 @ err in
                    if returncode proc \<noteq> 0
                    then
                      let out3 = out2 @ (if verbose args then exited_line ClangFormatHelper proc else [])
                      in case decode_utf8 (stdout proc) of
                           Inl e \<Rightarrow> (Inl e, out3)
                         | Inr diff \<Rightarrow>
                             (Inr (Some diff), out3 @ (if verbose args then print_line diff else []))
                    else (Inr None, out2)))"
| "format_run RuffFormatHelper env iter run_proc files args =
     (let py_files = filter_changed_files RuffFormatHelper files in
      if py_files = [] then (Inr None, [])
      else
        let cmd = ruff_cmd env py_files args;
            out1 = (if verbose args then running_line cmd else [])
        in case run_proc cmd of
             Inl e \<Rightarrow> (Inl e, out1)
           | Inr proc \<Rightarrow>
               (case (if verbose args then decode_utf8 (stderr proc) else Inr []) of
                  Inl e \<Rightarrow> (Inl e, out1)
                | Inr err \<Rightarrow>
                    let out2 = out1 @ err in
                    if returncode proc \<noteq> 0
                    then
                      let out3 = out2 @ (if verbose args then exited_line RuffFormatHelper proc else [])
                      in case decode_utf8 (stdout proc) of
                           Inl e \<Rightarrow> (Inl e, out3)
                         | Inr diff \<Rightarrow>
                             (Inr (Some diff), out3 @ (if verbose args then print_line diff else []))
                    else
                      (case decode_utf8 (stdout proc) of
                         Inl e \<Rightarrow> (Inl e, out2)
                       | Inr shown \<Rightarrow> (Inr None, out2 @ shown))))"

definition warning_issues :: "helper \<Rightarrow> string" where
  "warning_issues h =
     ''Warning: '' @ friendly_name h @ '', '' @ name h
     @ '' detected some issues with your code formatting...''"

definition warning_no_diff :: "helper \<Rightarrow> string" where
  "warning_no_diff h =
     ''Warning: The '' @ friendly_name h
     @ '' failed without printing a diff. Check the logs for stderr output. :warning:''"

definition run ::
  "helper \<Rightarrow> (string \<rightharpoonup> string) \<Rightarrow> (string set \<Rightarrow> string list)
    \<Rightarrow> (string list \<Rightarrow> py_error + CompletedProcess)
    \<Rightarrow> string list \<Rightarrow> FormatArgs \<Rightarrow> (py_error + bool) \<times> ustring" where
  \<comment> \<open>the result of \<open>FormatHelper.run\<close> or the error that leaves it, and the text written
      to the standard output\<close>
  "run h env iter run_proc files args =
     (case format_run h env iter run_proc files args of
        (Inl e, out) \<Rightarrow> (Inl e, out)
      | (Inr None, out) \<Rightarrow> (Inr True, out)
      | (Inr (Some diff), out) \<Rightarrow>
          if length diff > 0 then (Inr False, out @ print_line (codepoints (warning_issues h)))
          else (Inr False, out @ print_line (codepoints (warning_no_diff h))))"

fun format_cmd ::
  "helper \<Rightarrow> (string \<rightharpoonup> string) \<Rightarrow> (string set \<Rightarrow> string list) \<Rightarrow> string list \<Rightarrow> FormatArgs \<Rightarrow> string list" where
  \<comment> \<open>the command line a helper hands to its tool, for its filtered files\<close>
  "format_cmd ClangFormatHelper env iter files args = clang_cf_cmd env iter files args"
| "format_cmd RuffFormatHelper env iter files args = ruff_cmd env files args"

section \<open>The specification's notions\<close>

text \<open>
  The shapes and outcomes below follow the words of the specification, not the code;
  the theorems compare the code with them.
\<close>

definition header_shape :: "string \<Rightarrow> bool" where
  \<comment> \<open>\<open><word-chars>[<word-chars>]: <rest>\<close>, each part non-empty\<close>
  "header_shape h =
     (\<exists>w1 w2 rest. h = w1 @ ''['' @ w2 @ '']: '' @ rest
        \<and> w1 \<noteq> [] \<and> list_all is_word w1 \<and> w2 \<noteq> [] \<and> list_all is_word w2 \<and> rest \<noteq> [])"

definition jira_reference :: "string \<Rightarrow> bool" where
  \<comment> \<open>\<open><uppercase-alnum>-<digits>\<close>, each part non-empty\<close>
  "jira_reference s =
     (\<exists>p d. s = p @ ''-'' @ d
        \<and> p \<noteq> [] \<and> list_all is_upper_digit p \<and> d \<noteq> [] \<and> list_all is_digit d)"

datatype outcome = Clean | NeedsChanges | InfrastructureFailure

definition classify :: "int \<Rightarrow> bytes \<Rightarrow> outcome" where
  \<comment> \<open>the outcome of a tool run, from its exit code and its captured standard output\<close>
  "classify code out =
     (if code = 0 then Clean else if out \<noteq> [] then NeedsChanges else InfrastructureFailure)"

section \<open>Properties of the commit message checker\<close>

subsection \<open>Splitting and stripping\<close>

lemma split_on_no_sep: "sep \<notin> set a \<Longrightarrow> split_on sep a = [a]"
  by (induction a) auto

lemma split_on_append_sep:
  "sep \<notin> set a \<Longrightarrow> split_on sep (a @ sep # b) = a # split_on sep b"
  by (induction a) auto

lemma split_on_join:
  "xs \<noteq> [] \<Longrightarrow> \<forall>x\<in>set xs. sep \<notin> set x \<Longrightarrow> split_on sep (join [sep] xs) = xs"
  by (induction "[sep]" xs rule: join.induct) (auto simp: split_on_no_sep split_on_append_sep)

lemma split_on_lines_no_sep: "l \<in> set (split_on sep s) \<Longrightarrow> sep \<notin> set l"
  by (induction s arbitrary: l) (auto split: if_splits list.splits)

lemma split_on_hd: "\<exists>rest. split_on sep t = takeWhile (\<lambda>c. c \<noteq> sep) t # rest"
  by (induction t) (auto split: list.splits)

lemma find_snoc:
  "find P (xs @ [x]) = (case find P xs of None \<Rightarrow> (if P x then Some x else None) | Some y \<Rightarrow> Some y)"
  by (induction xs) auto

lemma dropWhile_none: "\<forall>x\<in>set xs. \<not> P x \<Longrightarrow> dropWhile P xs = xs"
  by (cases xs) auto

lemma dropWhile_append_keep:
  "ys \<noteq> [] \<Longrightarrow> \<not> P (hd ys) \<Longrightarrow> \<exists>x. dropWhile P (xs @ ys) = x @ ys"
proof (induction xs)
  case Nil
  then show ?case by (cases ys) auto
next
  case (Cons a xs)
  then show ?case by (cases "P a") (auto intro: exI [of _ "a # xs"])
qed

lemma strip_token: "\<forall>c\<in>set t. \<not> is_space c \<Longrightarrow> strip t = t"
  by (simp add: strip_def dropWhile_none)

lemma split_ws_tokens: "t \<in> set (split_ws s) \<Longrightarrow> \<forall>c\<in>set t. \<not> is_space c"
proof (induction s arbitrary: t rule: split_ws.induct)
  case 1
  then show ?case by simp
next
  case (2 c cs)
  show ?case
  proof (cases "is_space c")
    case True
    with 2 show ?thesis by simp
  next
    case False
    with "2.prems" have "t = c # takeWhile (\<lambda>x. \<not> is_space x) cs
        \<or> t \<in> set (split_ws (dropWhile (\<lambda>x. \<not> is_space x) cs))"
      by simp
    then show ?thesis
    proof
      assume "t = c # takeWhile (\<lambda>x. \<not> is_space x) cs"
      then show ?thesis
        using False by (auto dest: set_takeWhileD)
    next
      assume "t \<in> set (split_ws (dropWhile (\<lambda>x. \<not> is_space x) cs))"
      then show ?thesis
        using "2.IH"(2) [OF False] by blast
    qed
  qed
qed

lemma digit_not_space: "is_digit c \<Longrightarrow> \<not> is_space c \<and> c \<noteq> CHR '':''"
  by (auto simp: is_digit_def is_space_def)

lemma upper_digit_not_space: "is_upper_digit c \<Longrightarrow> \<not> is_space c \<and> c \<noteq> CHR '':''"
  by (auto simp: is_upper_digit_def is_digit_def is_space_def)

subsection \<open>What the matcher accepts\<close>

lemma cmem_classes:
  "cmem Word = is_word" "cmem UpperDigit = is_upper_digit" "cmem Digit = is_digit"
  by (rule ext, simp)+

lemma full_match_Zero: "\<not> full_match Zero w"
  by (induction w) auto

lemma full_match_One: "full_match One w \<longleftrightarrow> w = []"
  by (cases w) (auto simp: full_match_Zero)

lemma full_match_Atom: "full_match (Atom k) w \<longleftrightarrow> (\<exists>c. w = [c] \<and> cmem k c)"
  by (cases w) (auto simp: full_match_Zero full_match_One)

lemma full_match_Alt: "full_match (Alt r s) w \<longleftrightarrow> full_match r w \<or> full_match s w"
  by (induction w arbitrary: r s) auto

lemma full_match_Seq:
  "full_match (Seq r s) w \<longleftrightarrow> (\<exists>u v. w = u @ v \<and> full_match r u \<and> full_match s v)"
proof (induction w arbitrary: r s)
  case Nil
  then show ?case by simp
next
  case (Cons c cs)
  have split: "(\<exists>u v. c # cs = u @ v \<and> full_match r u \<and> full_match s v) \<longleftrightarrow>
      (nullable r \<and> full_match (deriv c s) cs)
      \<or> (\<exists>u v. cs = u @ v \<and> full_match (deriv c r) u \<and> full_match s v)"
    (is "?L \<longleftrightarrow> ?A \<or> ?B")
  proof
    assume ?L
    then obtain u v where uv: "c # cs = u @ v" "full_match r u" "full_match s v"
      by blast
    show "?A \<or> ?B"
    proof (cases u)
      case Nil
      with uv show ?thesis by auto
    next
      case (Cons a u')
      with uv have "cs = u' @ v" "full_match (deriv c r) u'" by auto
      with uv show ?thesis by blast
    qed
  next
    assume "?A \<or> ?B"
    then show ?L
    proof
      assume ?A
      then have "c # cs = [] @ (c # cs) \<and> full_match r [] \<and> full_match s (c # cs)"
        by simp
      then show ?L by blast
    next
      assume ?B
      then obtain u v where "cs = u @ v" "full_match (deriv c r) u" "full_match s v"
        by blast
      then have "c # cs = (c # u) @ v \<and> full_match r (c # u) \<and> full_match s v"
        by simp
      then show ?L by blast
    qed
  qed
  show ?case
    by (simp only: split full_match.simps deriv.simps) (auto simp: full_match_Alt Cons.IH)
qed

lemma full_match_Seq_guard:
  "full_match (Seq (if b then One else Zero) r) w \<longleftrightarrow> b \<and> full_match r w"
  by (simp add: full_match_Seq full_match_One full_match_Zero)

lemma full_match_Star_Atom: "full_match (Star (Atom k)) w \<longleftrightarrow> list_all (cmem k) w"
proof (induction w)
  case Nil
  then show ?case by simp
next
  case (Cons c cs)
  have "full_match (Star (Atom k)) (c # cs) \<longleftrightarrow>
      full_match (Seq (if cmem k c then One else Zero) (Star (Atom k))) cs"
    by simp
  also have "\<dots> \<longleftrightarrow> cmem k c \<and> full_match (Star (Atom k)) cs"
    by (simp add: full_match_Seq full_match_One full_match_Zero)
  finally show ?case
    using Cons.IH by simp
qed

lemma full_match_Plus_Atom:
  "full_match (Plus (Atom k)) w \<longleftrightarrow> w \<noteq> [] \<and> list_all (cmem k) w"
  by (cases w) (simp_all add: Plus_def full_match_Seq_guard full_match_Star_Atom)

lemma prefix_match_iff:
  "prefix_match r s \<longleftrightarrow> (\<exists>u. prefix u s \<and> full_match r u)"
proof (induction s arbitrary: r)
  case Nil
  then show ?case by simp
next
  case (Cons c cs)
  have "(\<exists>u. prefix u (c # cs) \<and> full_match r u) \<longleftrightarrow>
      nullable r \<or> (\<exists>u. prefix u cs \<and> full_match (deriv c r) u)"
    by (auto simp: prefix_Cons)
  then show ?case
    by (simp add: Cons.IH)
qed

lemma header_pattern_match:
  "full_match header_pattern h \<longleftrightarrow>
     (\<exists>w1 w2 rest. h = w1 @ ''['' @ w2 @ '']: '' @ rest
        \<and> w1 \<noteq> [] \<and> list_all is_word w1 \<and> w2 \<noteq> [] \<and> list_all is_word w2
        \<and> rest \<noteq> [] \<and> newline \<notin> set rest)"
  unfolding header_pattern_def
  by (simp add: full_match_Seq full_match_Plus_Atom full_match_Atom list_all_iff) blast

lemma jira_pattern_match: "full_match jira_pattern r \<longleftrightarrow> jira_reference r"
  unfolding jira_pattern_def jira_reference_def
  by (simp add: full_match_Seq full_match_Plus_Atom full_match_Atom cmem_classes) blast

subsection \<open>Messages without a non-empty line\<close>

lemma problem_task_loop_blank: "\<forall>l\<in>set ls. l = [] \<Longrightarrow> \<not> problem_task_loop ls"
  by (induction ls) (auto simp: startswith_def)

lemma solution_loop_blank: "\<forall>l\<in>set ls. l = [] \<Longrightarrow> \<not> solution_loop ls"
  by (induction ls) (auto simp: startswith_def)

lemma test_loop_blank: "\<forall>l\<in>set ls. l = [] \<Longrightarrow> test_loop ls b = b"
  by (induction ls arbitrary: b) (auto simp: startswith_def)

lemma jira_loop_blank: "\<forall>l\<in>set ls. l = [] \<Longrightarrow> jira_loop ls = Inr (False, [])"
  by (induction ls) (auto simp: startswith_def)

lemma author_loop_blank: "\<forall>l\<in>set ls. l = [] \<Longrightarrow> author_loop ls st = Inr st"
  by (induction ls arbitrary: st) (auto simp: startswith_def)

lemma filter_blank: "\<forall>l\<in>set ls. l = [] \<Longrightarrow> filter (\<lambda>l. l \<noteq> []) ls = []"
  by (induction ls) auto

text \<open>
  C3. A commit message with no non-empty line is invalid: \<open>validate_commit\<close> returns
  \<open>False\<close>, the header check fails with the empty-message reason, and the five other
  checks report their own missing section after it.
\<close>

theorem empty_message_invalid:
  assumes "\<forall>line\<in>set (split_on newline commit_msg). line = []"
  shows "validate_commit commit_msg =
    Inr (False,
      [''Empty commit message'', ''Missing 'Problem/Task:' section'',
       ''Missing 'Solution:' section'', ''Missing 'Test:' section'',
       ''Missing 'JIRA:' section'', ''Missing author or email''])"
proof -
  have h: "check_header commit_msg = Inr (False, ''Empty commit message'')"
    using assms by (simp add: check_header_def filter_blank)
  have p: "check_problem_task_section commit_msg = Inr (False, ''Missing 'Problem/Task:' section'')"
    using assms by (simp add: check_problem_task_section_def problem_task_loop_blank)
  have s: "check_solution_section commit_msg = Inr (False, ''Missing 'Solution:' section'')"
    using assms by (simp add: check_solution_section_def solution_loop_blank)
  have t: "check_test_section commit_msg = Inr (False, ''Missing 'Test:' section'')"
    using assms by (simp add: check_test_section_def test_loop_blank)
  have j: "check_jira_section commit_msg = Inr (False, ''Missing 'JIRA:' section'')"
    using assms by (simp add: check_jira_section_def jira_loop_blank)
  have a: "check_author_email commit_msg = Inr (False, ''Missing author or email'')"
    using assms by (simp add: check_author_email_def author_loop_blank)
  show ?thesis
    by (simp add: validate_commit_def checks_def h p s t j a)
qed

theorem empty_message_invalid_witness:
  "validate_commit [newline, newline] =
    Inr (False,
      [''Empty commit message'', ''Missing 'Problem/Task:' section'',
       ''Missing 'Solution:' section'', ''Missing 'Test:' section'',
       ''Missing 'JIRA:' section'', ''Missing author or email''])"
  using empty_message_invalid [of "[newline, newline]"] by simp

subsection \<open>An Author line with fewer than three words\<close>

text \<open>
  C1. \<open>validate_commit\<close> does not return a list of failures for every message: on a
  message whose body has the line \<open>Author: jdoe\<close> before the author line that
  \<open>get_commit_log\<close> appends, the index error of \<open>check_author_email\<close> leaves
  \<open>validate_commit\<close> as it is raised.
\<close>

theorem validate_commit_raises:
  "validate_commit
     (''fix[CI]: x'' @ [newline] @ ''Author: jdoe'' @ [newline] @ ''Author: jdoe <jdoe@is.ic>'')
     = Inl IndexError"
  by code_simp

text \<open>
  C2. \<open>check_author_email\<close> raises on a line that starts with \<open>Author:\<close> and has fewer
  than three words: on the same message it ends in an index error, not in a pair.
\<close>

theorem check_author_email_raises:
  "check_author_email
     (''fix[CI]: x'' @ [newline] @ ''Author: jdoe'' @ [newline] @ ''Author: jdoe <jdoe@is.ic>'')
     = Inl IndexError"
  by code_simp

subsection \<open>The header check\<close>

lemma dollar_match_line:
  assumes "newline \<notin> set h"
  shows "dollar_match header_pattern h \<longleftrightarrow> header_shape h"
proof -
  have "h \<noteq> [] \<Longrightarrow> last h \<noteq> newline"
    using assms last_in_set by metis
  then have "dollar_match header_pattern h \<longleftrightarrow> full_match header_pattern h"
    by (auto simp: dollar_match_def)
  also have "\<dots> \<longleftrightarrow> header_shape h"
  proof
    assume "full_match header_pattern h"
    then show "header_shape h"
      unfolding header_pattern_match header_shape_def by blast
  next
    assume "header_shape h"
    then obtain w1 w2 rest where parts: "h = w1 @ ''['' @ w2 @ '']: '' @ rest"
      "w1 \<noteq> []" "list_all is_word w1" "w2 \<noteq> []" "list_all is_word w2" "rest \<noteq> []"
      unfolding header_shape_def by blast
    from parts(1) assms have "newline \<notin> set rest"
      by auto
    with parts show "full_match header_pattern h"
      unfolding header_pattern_match by blast
  qed
  finally show ?thesis .
qed

lemma header_examples:
  "dollar_match header_pattern ''feat[CORE]: add x''"
  "\<not> dollar_match header_pattern ''add x''"
  by code_simp+

text \<open>
  C4. The header check passes exactly when the first non-empty line of the message has
  the shape \<open><word-chars>[<word-chars>]: <rest>\<close>, each of the three parts non-empty; a
  message with no non-empty line fails with the empty-message text, and any other
  message fails with the fixed text on the required shape. A message whose first
  non-empty line is \<open>feat[CORE]: add x\<close> passes, and one whose first non-empty line is
  \<open>add x\<close> fails with the fixed text.
\<close>

theorem check_header_spec:
  "check_header commit_msg =
     (case filter (\<lambda>line. line \<noteq> []) (split_on newline commit_msg) of
        [] \<Rightarrow> Inr (False, ''Empty commit message'')
      | header # _ \<Rightarrow>
          if header_shape header then Inr (True, '''')
          else Inr (False, ''Invalid header format. Should be: <type>[<SCOPE>]: <short-summary>''))
   \<and> (filter (\<lambda>line. line \<noteq> []) (split_on newline commit_msg) = ''feat[CORE]: add x'' # ls
        \<longrightarrow> check_header commit_msg = Inr (True, ''''))
   \<and> (filter (\<lambda>line. line \<noteq> []) (split_on newline commit_msg) = ''add x'' # ls
        \<longrightarrow> check_header commit_msg =
              Inr (False, ''Invalid header format. Should be: <type>[<SCOPE>]: <short-summary>''))"
proof -
  have 1: "check_header commit_msg =
     (case filter (\<lambda>line. line \<noteq> []) (split_on newline commit_msg) of
        [] \<Rightarrow> Inr (False, ''Empty commit message'')
      | header # _ \<Rightarrow>
          if header_shape header then Inr (True, '''')
          else Inr (False, ''Invalid header format. Should be: <type>[<SCOPE>]: <short-summary>''))"
  proof (cases "filter (\<lambda>line. line \<noteq> []) (split_on newline commit_msg)")
    case Nil
    then show ?thesis
      by (simp add: check_header_def)
  next
    case (Cons header rest)
    then have "header \<in> set (filter (\<lambda>line. line \<noteq> []) (split_on newline commit_msg))"
      by simp
    then have "newline \<notin> set header"
      by (auto dest: split_on_lines_no_sep)
    then show ?thesis
      by (simp add: check_header_def Cons dollar_match_line)
  qed
  have 2: "filter (\<lambda>line. line \<noteq> []) (split_on newline commit_msg) = ''feat[CORE]: add x'' # ls
        \<longrightarrow> check_header commit_msg = Inr (True, '''')"
    unfolding check_header_def using header_examples(1) by (auto split: list.splits)
  have 3: "filter (\<lambda>line. line \<noteq> []) (split_on newline commit_msg) = ''add x'' # ls
        \<longrightarrow> check_header commit_msg =
              Inr (False, ''Invalid header format. Should be: <type>[<SCOPE>]: <short-summary>'')"
    unfolding check_header_def using header_examples(2) by (auto split: list.splits)
  show ?thesis
    using 1 2 3 by blast
qed

theorem check_header_spec_witness:
  "check_header (''feat[CORE]: add x'' @ [newline] @ ''body'') = Inr (True, '''')
   \<and> check_header (''add x'' @ [newline] @ ''body'')
       = Inr (False, ''Invalid header format. Should be: <type>[<SCOPE>]: <short-summary>'')"
proof -
  have a: "filter (\<lambda>line. line \<noteq> []) (split_on newline (''feat[CORE]: add x'' @ [newline] @ ''body''))
      = ''feat[CORE]: add x'' # [''body'']"
    by code_simp
  have b: "filter (\<lambda>line. line \<noteq> []) (split_on newline (''add x'' @ [newline] @ ''body''))
      = ''add x'' # [''body'']"
    by code_simp
  show ?thesis
    using check_header_spec [of "''feat[CORE]: add x'' @ [newline] @ ''body''" "[''body'']"]
      check_header_spec [of "''add x'' @ [newline] @ ''body''" "[''body'']"] a b
    by blast
qed

subsection \<open>The JIRA check\<close>

lemma jira_reference_chars:
  assumes "jira_reference r"
  shows "r \<noteq> []" and "\<not> is_space (hd r)" and "\<not> is_space (last r)" and "CHR '':'' \<notin> set r"
proof -
  from assms obtain p d where r: "r = p @ ''-'' @ d" "p \<noteq> []" "list_all is_upper_digit p"
    "d \<noteq> []" "list_all is_digit d"
    unfolding jira_reference_def by blast
  show "r \<noteq> []" using r by simp
  have "is_upper_digit (hd p)" using r by (cases p) auto
  then show "\<not> is_space (hd r)" using r upper_digit_not_space by simp
  have "is_digit (last d)" using r by (simp add: list_all_iff)
  then show "\<not> is_space (last r)" using r digit_not_space by simp
  show "CHR '':'' \<notin> set r"
    using r upper_digit_not_space digit_not_space by (auto simp: list_all_iff)
qed

lemma jira_line_field:
  assumes "startswith line ''JIRA:''"
  shows "py_nth (split_on CHR '':'' line) 1 = Inr (takeWhile (\<lambda>c. c \<noteq> CHR '':'') (drop 5 line))"
proof -
  from assms obtain t where line: "line = ''JIRA'' @ CHR '':'' # t"
    by (auto simp: startswith_def prefix_def)
  obtain rest where "split_on CHR '':'' t = takeWhile (\<lambda>c. c \<noteq> CHR '':'') t # rest"
    using split_on_hd by blast
  then have "split_on CHR '':'' line = ''JIRA'' # takeWhile (\<lambda>c. c \<noteq> CHR '':'') t # rest"
    unfolding line by (subst split_on_append_sep) simp_all
  then show ?thesis
    by (simp add: py_nth_def line)
qed

lemma jira_loop_find:
  "jira_loop ls =
     (case find (\<lambda>l. startswith l ''JIRA:'') ls of
        None \<Rightarrow> Inr (False, [])
      | Some line \<Rightarrow> Inr (True, strip (takeWhile (\<lambda>c. c \<noteq> CHR '':'') (drop 5 line))))"
  by (induction ls) (simp_all add: jira_line_field del: One_nat_def)

lemma check_jira_section_find:
  "check_jira_section commit_msg =
     (case find (\<lambda>l. startswith l ''JIRA:'') (split_on newline commit_msg) of
        None \<Rightarrow> Inr (False, ''Missing 'JIRA:' section'')
      | Some line \<Rightarrow>
          if \<exists>r. prefix r (strip (takeWhile (\<lambda>c. c \<noteq> CHR '':'') (drop 5 line))) \<and> jira_reference r
          then Inr (True, '''')
          else Inr (False, ''JIRA reference should be in format: <PROJ-123>''))"
proof (cases "find (\<lambda>l. startswith l ''JIRA:'') (split_on newline commit_msg)")
  case None
  then show ?thesis
    by (simp add: check_jira_section_def jira_loop_find)
next
  case (Some line)
  have "prefix_match jira_pattern x \<longleftrightarrow> (\<exists>r. prefix r x \<and> jira_reference r)" for x
    by (simp add: prefix_match_iff jira_pattern_match)
  then show ?thesis
    by (simp add: check_jira_section_def jira_loop_find Some)
qed

lemma strip_keeps_reference:
  assumes "jira_reference r"
  shows "prefix r (strip ('' '' @ r @ t))"
proof -
  have "dropWhile is_space ('' '' @ r @ t) = r @ t"
    using jira_reference_chars(1,2) [OF assms] by (cases r) (auto simp: is_space_def)
  moreover obtain x where "dropWhile is_space (rev t @ rev r) = x @ rev r"
    using dropWhile_append_keep [of "rev r" is_space "rev t"] jira_reference_chars(1,3) [OF assms]
    by (auto simp: hd_rev)
  ultimately have "strip ('' '' @ r @ t) = r @ rev x"
    by (simp add: strip_def)
  then show ?thesis by simp
qed

text \<open>
  C9. The JIRA check matches the reference as a prefix only: when the first line of the
  message that starts with \<open>JIRA:\<close> is \<open>JIRA: \<close> followed by a text of the shape
  \<open><uppercase-alnum>-<digits>\<close> and then by any characters at all, the check passes.
\<close>

theorem jira_prefix_passes:
  assumes ref: "jira_reference ref"
    and first: "find (\<lambda>l. startswith l ''JIRA:'') (split_on newline commit_msg)
                  = Some (''JIRA: '' @ ref @ trailing)"
  shows "check_jira_section commit_msg = Inr (True, '''')"
proof -
  have "takeWhile (\<lambda>c. c \<noteq> CHR '':'') (drop 5 (''JIRA: '' @ ref @ trailing))
      = '' '' @ ref @ takeWhile (\<lambda>c. c \<noteq> CHR '':'') trailing"
  proof -
    have "takeWhile (\<lambda>c. c \<noteq> CHR '':'') (ref @ trailing)
        = ref @ takeWhile (\<lambda>c. c \<noteq> CHR '':'') trailing"
      by (rule takeWhile_append2) (use jira_reference_chars(4) [OF ref] in auto)
    then show ?thesis by simp
  qed
  then have "prefix ref (strip (takeWhile (\<lambda>c. c \<noteq> CHR '':'') (drop 5 (''JIRA: '' @ ref @ trailing))))"
    using strip_keeps_reference [OF ref] by simp
  with ref show ?thesis
    unfolding check_jira_section_find first by auto
qed

theorem jira_prefix_passes_witness:
  "check_jira_section (''fix[CI]: x'' @ [newline] @ ''JIRA: ABC-123garbage'') = Inr (True, '''')"
proof -
  have "full_match jira_pattern ''ABC-123''"
    by code_simp
  then have r: "jira_reference ''ABC-123''"
    by (simp only: jira_pattern_match)
  have f: "find (\<lambda>l. startswith l ''JIRA:'')
      (split_on newline (''fix[CI]: x'' @ [newline] @ ''JIRA: ABC-123garbage''))
        = Some (''JIRA: '' @ ''ABC-123'' @ ''garbage'')"
    by code_simp
  show ?thesis
    by (rule jira_prefix_passes [OF r f])
qed

lemma jira_examples:
  "prefix_match jira_pattern (strip (takeWhile (\<lambda>c. c \<noteq> CHR '':'') (drop 5 ''JIRA: ABC-123'')))"
  "\<not> prefix_match jira_pattern (strip (takeWhile (\<lambda>c. c \<noteq> CHR '':'') (drop 5 ''JIRA: abc123'')))"
  by code_simp+

text \<open>
  C5, as the code has it. Only the first line that starts with \<open>JIRA:\<close> counts. Without
  such a line the check fails with the missing-section text. With one, the check passes
  exactly when the text after the colon (up to a further colon, stripped of blanks)
  begins with a reference of the shape \<open><uppercase-alnum>-<digits>\<close>, and fails with the
  malformed-reference text otherwise. A message whose first JIRA line is
  \<open>JIRA: ABC-123\<close> passes; one whose first JIRA line is \<open>JIRA: abc123\<close> fails with the
  malformed-reference text.
\<close>

theorem jira_first_line_decides:
  "check_jira_section commit_msg =
     (case find (\<lambda>l. startswith l ''JIRA:'') (split_on newline commit_msg) of
        None \<Rightarrow> Inr (False, ''Missing 'JIRA:' section'')
      | Some line \<Rightarrow>
          if \<exists>r. prefix r (strip (takeWhile (\<lambda>c. c \<noteq> CHR '':'') (drop 5 line))) \<and> jira_reference r
          then Inr (True, '''')
          else Inr (False, ''JIRA reference should be in format: <PROJ-123>''))
   \<and> (find (\<lambda>l. startswith l ''JIRA:'') (split_on newline commit_msg) = Some ''JIRA: ABC-123''
        \<longrightarrow> check_jira_section commit_msg = Inr (True, ''''))
   \<and> (find (\<lambda>l. startswith l ''JIRA:'') (split_on newline commit_msg) = Some ''JIRA: abc123''
        \<longrightarrow> check_jira_section commit_msg =
              Inr (False, ''JIRA reference should be in format: <PROJ-123>''))"
proof -
  have m: "prefix_match jira_pattern x \<longleftrightarrow> (\<exists>r. prefix r x \<and> jira_reference r)" for x
    by (simp add: prefix_match_iff jira_pattern_match)
  note ex = jira_examples [unfolded m]
  have 2: "find (\<lambda>l. startswith l ''JIRA:'') (split_on newline commit_msg) = Some ''JIRA: ABC-123''
        \<longrightarrow> check_jira_section commit_msg = Inr (True, [])"
  proof
    assume f: "find (\<lambda>l. startswith l ''JIRA:'') (split_on newline commit_msg) = Some ''JIRA: ABC-123''"
    show "check_jira_section commit_msg = Inr (True, [])"
      unfolding check_jira_section_find f using ex(1) by (simp only: option.case if_True)
  qed
  have 3: "find (\<lambda>l. startswith l ''JIRA:'') (split_on newline commit_msg) = Some ''JIRA: abc123''
        \<longrightarrow> check_jira_section commit_msg =
              Inr (False, ''JIRA reference should be in format: <PROJ-123>'')"
  proof
    assume f: "find (\<lambda>l. startswith l ''JIRA:'') (split_on newline commit_msg) = Some ''JIRA: abc123''"
    show "check_jira_section commit_msg =
              Inr (False, ''JIRA reference should be in format: <PROJ-123>'')"
      unfolding check_jira_section_find f using ex(2) by (simp only: option.case if_False)
  qed
  show ?thesis
    using check_jira_section_find [of commit_msg] 2 3 by (rule conjI [OF _ conjI])
qed

theorem jira_first_line_decides_witness:
  "check_jira_section (''JIRA: abc123'' @ [newline] @ ''JIRA: ABC-123'')
     = Inr (False, ''JIRA reference should be in format: <PROJ-123>'')
   \<and> check_jira_section (''JIRA: ABC-123'' @ [newline] @ ''JIRA: abc123'') = Inr (True, '''')"
proof -
  have a: "find (\<lambda>l. startswith l ''JIRA:'') (split_on newline (''JIRA: abc123'' @ [newline] @ ''JIRA: ABC-123''))
      = Some ''JIRA: abc123''"
    by code_simp
  have b: "find (\<lambda>l. startswith l ''JIRA:'') (split_on newline (''JIRA: ABC-123'' @ [newline] @ ''JIRA: abc123''))
      = Some ''JIRA: ABC-123''"
    by code_simp
  show ?thesis
    using jira_first_line_decides [of "''JIRA: abc123'' @ [newline] @ ''JIRA: ABC-123''"]
      jira_first_line_decides [of "''JIRA: ABC-123'' @ [newline] @ ''JIRA: abc123''"] a b
    by blast
qed

text \<open>
  C5 as it is written does not hold: a message can contain the line \<open>JIRA: ABC-123\<close> and
  still fail the check, when an earlier line starts with \<open>JIRA:\<close>.
\<close>

theorem jira_any_line_counterexample:
  "''JIRA: ABC-123'' \<in> set (split_on newline (''JIRA: abc123'' @ [newline] @ ''JIRA: ABC-123''))
   \<and> check_jira_section (''JIRA: abc123'' @ [newline] @ ''JIRA: ABC-123'')
       = Inr (False, ''JIRA reference should be in format: <PROJ-123>'')"
  by code_simp

subsection \<open>The author check\<close>

lemma author_line_fields:
  assumes "3 \<le> length (split_ws line)"
  shows "py_nth (split_ws line) 1 = Inr (split_ws line ! 1)"
    and "py_nth (split_ws line) 2 = Inr (split_ws line ! 2)"
    and "strip (split_ws line ! 1) = split_ws line ! 1"
    and "strip (split_ws line ! 2) = split_ws line ! 2"
proof -
  have 1: "1 < length (split_ws line)" and 2: "2 < length (split_ws line)"
    using assms by simp_all
  show "py_nth (split_ws line) 1 = Inr (split_ws line ! 1)"
    using 1 by (simp only: py_nth_def if_True)
  show "py_nth (split_ws line) 2 = Inr (split_ws line ! 2)"
    using 2 by (simp only: py_nth_def if_True)
  have "split_ws line ! 1 \<in> set (split_ws line)"
    using 1 by (rule nth_mem)
  then show "strip (split_ws line ! 1) = split_ws line ! 1"
    by (rule strip_token [OF split_ws_tokens])
  have "split_ws line ! 2 \<in> set (split_ws line)"
    using 2 by (rule nth_mem)
  then show "strip (split_ws line ! 2) = split_ws line ! 2"
    by (rule strip_token [OF split_ws_tokens])
qed

lemma author_loop_step:
  "author_loop (line # rest) st =
     (if startswith line ''Author:''
      then (case py_nth (split_ws line) 1 of
              Inl e \<Rightarrow> Inl e
            | Inr a \<Rightarrow>
               (case py_nth (split_ws line) 2 of
                  Inl e \<Rightarrow> Inl e
                | Inr m \<Rightarrow> author_loop rest (True, strip a, strip m)))
      else author_loop rest st)"
  by (rule author_loop.simps)

lemma author_loop_last:
  assumes "\<forall>l\<in>set ls. startswith l ''Author:'' \<longrightarrow> 3 \<le> length (split_ws l)"
  shows "author_loop ls st =
     Inr (case find (\<lambda>l. startswith l ''Author:'') (rev ls) of
            None \<Rightarrow> st
          | Some line \<Rightarrow> (True, split_ws line ! 1, split_ws line ! 2))"
  using assms
proof (induction ls arbitrary: st)
  case Nil
  then show ?case by simp
next
  case (Cons line rest)
  have rest: "\<forall>l\<in>set rest. startswith l ''Author:'' \<longrightarrow> 3 \<le> length (split_ws l)"
    using Cons.prems by simp
  note IH = Cons.IH [OF rest]
  let ?P = "\<lambda>l. startswith l ''Author:''"
  have snoc: "find ?P (rev (line # rest)) =
      (case find ?P (rev rest) of None \<Rightarrow> (if ?P line then Some line else None) | Some y \<Rightarrow> Some y)"
    by (simp only: rev.simps find_snoc)
  show ?case
  proof (cases "startswith line ''Author:''")
    case True
    with Cons.prems have len: "3 \<le> length (split_ws line)"
      by simp
    have step: "author_loop (line # rest) st =
        author_loop rest (True, split_ws line ! 1, split_ws line ! 2)"
      by (simp only: author_loop_step True if_True author_line_fields [OF len] sum.case)
    show ?thesis
    proof (cases "find ?P (rev rest)")
      case None
      then show ?thesis
        by (simp only: step IH snoc None True if_True option.case)
    next
      case (Some y)
      then show ?thesis
        by (simp only: step IH snoc Some option.case)
    qed
  next
    case False
    have step: "author_loop (line # rest) st = author_loop rest st"
      by (simp only: author_loop_step False if_False)
    show ?thesis
    proof (cases "find ?P (rev rest)")
      case None
      then show ?thesis
        by (simp only: step IH snoc None False if_False option.case)
    next
      case (Some y)
      then show ?thesis
        by (simp only: step IH snoc Some option.case)
    qed
  qed
qed

lemma check_author_email_last:
  assumes "\<forall>l\<in>set (split_on newline commit_msg). startswith l ''Author:'' \<longrightarrow> 3 \<le> length (split_ws l)"
  shows "check_author_email commit_msg =
     (case find (\<lambda>l. startswith l ''Author:'') (rev (split_on newline commit_msg)) of
        None \<Rightarrow> Inr (False, ''Missing author or email'')
      | Some line \<Rightarrow>
          if split_ws line ! 2 = ''<'' @ split_ws line ! 1 @ ''@is.ic>'' then Inr (True, '''')
          else Inr (False, split_ws line ! 1 @ '' '' @ split_ws line ! 2
                      @ '': email does not format: <username>@is.ic''))"
proof (cases "find (\<lambda>l. startswith l ''Author:'') (rev (split_on newline commit_msg))")
  case None
  show ?thesis
    unfolding check_author_email_def author_loop_last [OF assms] None by simp
next
  case (Some line)
  show ?thesis
    unfolding check_author_email_def author_loop_last [OF assms] Some
    by (cases "split_ws line ! 2 = ''<'' @ split_ws line ! 1 @ ''@is.ic>''")
       (simp_all del: One_nat_def)
qed

lemma author_examples:
  "split_ws ''Author: jdoe <jdoe@is.ic>'' = [''Author:'', ''jdoe'', ''<jdoe@is.ic>'']"
  "split_ws ''Author: jdoe <jdoe@wrong.com>'' = [''Author:'', ''jdoe'', ''<jdoe@wrong.com>'']"
  by code_simp+

text \<open>
  C6, as the code has it. When every line that starts with \<open>Author:\<close> has at least three
  words, the last such line decides: the check passes exactly when the third word of
  that line equals \<open><\<close> + second word + \<open>@is.ic>\<close>, and fails otherwise with a text that
  names both words; without such a line it fails with the missing-author text. A message
  whose last Author line is \<open>Author: jdoe <jdoe@is.ic>\<close> passes; one whose last Author line
  is \<open>Author: jdoe <jdoe@wrong.com>\<close> fails, naming \<open>jdoe\<close> and \<open><jdoe@wrong.com>\<close>.
\<close>

theorem author_last_line_decides:
  assumes "\<forall>l\<in>set (split_on newline commit_msg). startswith l ''Author:'' \<longrightarrow> 3 \<le> length (split_ws l)"
  shows "check_author_email commit_msg =
     (case find (\<lambda>l. startswith l ''Author:'') (rev (split_on newline commit_msg)) of
        None \<Rightarrow> Inr (False, ''Missing author or email'')
      | Some line \<Rightarrow>
          if split_ws line ! 2 = ''<'' @ split_ws line ! 1 @ ''@is.ic>'' then Inr (True, '''')
          else Inr (False, split_ws line ! 1 @ '' '' @ split_ws line ! 2
                      @ '': email does not format: <username>@is.ic''))
   \<and> (find (\<lambda>l. startswith l ''Author:'') (rev (split_on newline commit_msg))
          = Some ''Author: jdoe <jdoe@is.ic>''
        \<longrightarrow> check_author_email commit_msg = Inr (True, ''''))
   \<and> (find (\<lambda>l. startswith l ''Author:'') (rev (split_on newline commit_msg))
          = Some ''Author: jdoe <jdoe@wrong.com>''
        \<longrightarrow> check_author_email commit_msg =
              Inr (False, ''jdoe <jdoe@wrong.com>: email does not format: <username>@is.ic''))"
proof -
  note general = check_author_email_last [OF assms]
  have 2: "find (\<lambda>l. startswith l ''Author:'') (rev (split_on newline commit_msg))
          = Some ''Author: jdoe <jdoe@is.ic>''
        \<longrightarrow> check_author_email commit_msg = Inr (True, '''')"
  proof
    assume f: "find (\<lambda>l. startswith l ''Author:'') (rev (split_on newline commit_msg))
          = Some ''Author: jdoe <jdoe@is.ic>''"
    show "check_author_email commit_msg = Inr (True, '''')"
      unfolding general f option.case author_examples by simp
  qed
  have 3: "find (\<lambda>l. startswith l ''Author:'') (rev (split_on newline commit_msg))
          = Some ''Author: jdoe <jdoe@wrong.com>''
        \<longrightarrow> check_author_email commit_msg =
              Inr (False, ''jdoe <jdoe@wrong.com>: email does not format: <username>@is.ic'')"
  proof
    assume f: "find (\<lambda>l. startswith l ''Author:'') (rev (split_on newline commit_msg))
          = Some ''Author: jdoe <jdoe@wrong.com>''"
    show "check_author_email commit_msg =
              Inr (False, ''jdoe <jdoe@wrong.com>: email does not format: <username>@is.ic'')"
      unfolding general f option.case author_examples by simp
  qed
  show ?thesis
    using general 2 3 by (rule conjI [OF _ conjI])
qed

theorem author_last_line_decides_witness:
  "check_author_email (''Author: bob <bob@x.com>'' @ [newline] @ ''Author: jdoe <jdoe@is.ic>'')
     = Inr (True, '''')
   \<and> check_author_email (''fix[CI]: x'' @ [newline] @ ''Author: jdoe <jdoe@wrong.com>'')
     = Inr (False, ''jdoe <jdoe@wrong.com>: email does not format: <username>@is.ic'')
   \<and> check_author_email ''fix[CI]: x'' = Inr (False, ''Missing author or email'')"
proof -
  have h1: "\<forall>l\<in>set (split_on newline (''Author: bob <bob@x.com>'' @ [newline] @ ''Author: jdoe <jdoe@is.ic>'')).
      startswith l ''Author:'' \<longrightarrow> 3 \<le> length (split_ws l)"
    by code_simp
  have f1: "find (\<lambda>l. startswith l ''Author:'')
      (rev (split_on newline (''Author: bob <bob@x.com>'' @ [newline] @ ''Author: jdoe <jdoe@is.ic>'')))
        = Some ''Author: jdoe <jdoe@is.ic>''"
    by code_simp
  have h2: "\<forall>l\<in>set (split_on newline (''fix[CI]: x'' @ [newline] @ ''Author: jdoe <jdoe@wrong.com>'')).
      startswith l ''Author:'' \<longrightarrow> 3 \<le> length (split_ws l)"
    by code_simp
  have f2: "find (\<lambda>l. startswith l ''Author:'')
      (rev (split_on newline (''fix[CI]: x'' @ [newline] @ ''Author: jdoe <jdoe@wrong.com>'')))
        = Some ''Author: jdoe <jdoe@wrong.com>''"
    by code_simp
  have h3: "\<forall>l\<in>set (split_on newline ''fix[CI]: x'').
      startswith l ''Author:'' \<longrightarrow> 3 \<le> length (split_ws l)"
    by code_simp
  have f3: "find (\<lambda>l. startswith l ''Author:'') (rev (split_on newline ''fix[CI]: x'')) = None"
    by code_simp
  from author_last_line_decides [OF h1] f1
  have 1: "check_author_email (''Author: bob <bob@x.com>'' @ [newline] @ ''Author: jdoe <jdoe@is.ic>'')
     = Inr (True, '''')"
    by blast
  from author_last_line_decides [OF h2] f2
  have 2: "check_author_email (''fix[CI]: x'' @ [newline] @ ''Author: jdoe <jdoe@wrong.com>'')
     = Inr (False, ''jdoe <jdoe@wrong.com>: email does not format: <username>@is.ic'')"
    by blast
  from author_last_line_decides [OF h3]
  have 3: "check_author_email ''fix[CI]: x'' = Inr (False, ''Missing author or email'')"
    unfolding f3 by simp
  show ?thesis
    using 1 2 3 by blast
qed

text \<open>
  C6 as it is written does not hold: a message can contain the line
  \<open>Author: jdoe <jdoe@is.ic>\<close> and still fail the check, when a later line starts with
  \<open>Author:\<close>.
\<close>

theorem author_any_line_counterexample:
  "''Author: jdoe <jdoe@is.ic>''
     \<in> set (split_on newline (''Author: jdoe <jdoe@is.ic>'' @ [newline] @ ''Author: bob <bob@x.com>''))
   \<and> check_author_email (''Author: jdoe <jdoe@is.ic>'' @ [newline] @ ''Author: bob <bob@x.com>'')
       = Inr (False, ''bob <bob@x.com>: email does not format: <username>@is.ic'')"
  by code_simp

subsection \<open>The checks together\<close>

lemma five_checks_return:
  "(\<exists>r. check_header commit_msg = Inr r)
   \<and> (\<exists>r. check_problem_task_section commit_msg = Inr r)
   \<and> (\<exists>r. check_solution_section commit_msg = Inr r)
   \<and> (\<exists>r. check_test_section commit_msg = Inr r)
   \<and> (\<exists>r. check_jira_section commit_msg = Inr r)"
proof -
  have 1: "\<exists>r. check_header commit_msg = Inr r"
    by (cases "filter (\<lambda>line. line \<noteq> []) (split_on newline commit_msg)")
       (auto simp: check_header_def)
  have 2: "\<exists>r. check_problem_task_section commit_msg = Inr r"
    by (auto simp: check_problem_task_section_def)
  have 3: "\<exists>r. check_solution_section commit_msg = Inr r"
    by (auto simp: check_solution_section_def)
  have 4: "\<exists>r. check_test_section commit_msg = Inr r"
    by (auto simp: check_test_section_def)
  have 5: "\<exists>r. check_jira_section commit_msg = Inr r"
    unfolding check_jira_section_find by (auto split: option.splits)
  show ?thesis
    using 1 2 3 4 5 by blast
qed

lemma validate_commit_accumulates:
  assumes "check_header m = Inr h" and "check_problem_task_section m = Inr p"
    and "check_solution_section m = Inr s" and "check_test_section m = Inr t"
    and "check_jira_section m = Inr j" and "check_author_email m = Inr a"
  shows "validate_commit m =
     Inr (concat (map (\<lambda>r. if fst r then [] else [snd r]) [h, p, s, t, j, a]) = [],
          concat (map (\<lambda>r. if fst r then [] else [snd r]) [h, p, s, t, j, a]))"
  using assms
  by (cases h; cases p; cases s; cases t; cases j; cases a)
     (simp add: validate_commit_def checks_def)

section \<open>Properties of the code format helper\<close>

subsection \<open>The file filters\<close>

lemma clang_filter_loop_filter:
  "clang_filter_loop files acc =
     acc @ filter (\<lambda>p. snd (splitext p) \<in> set clang_extensions
            \<or> (snd (splitext p) = [] \<and> startswith p ''libcxx/include'')) files"
  by (induction files arbitrary: acc)
     (simp_all add: Let_def should_include_extensionless_file_def)

lemma ruff_filter_loop_filter:
  "ruff_filter_loop files acc = acc @ filter (\<lambda>p. snd (splitext p) = ''.py'') files"
  by (induction files arbitrary: acc) (simp_all add: Let_def)

lemma filter_examples:
  "filter_changed_files ClangFormatHelper [''a.cpp'', ''b.py'', ''c.h'', ''d.txt''] = [''a.cpp'', ''c.h'']
   \<and> filter_changed_files RuffFormatHelper [''a.cpp'', ''b.py'', ''c.h'', ''d.txt''] = [''b.py'']"
  by code_simp

text \<open>
  C7. The native-code filter keeps, in the order of the input and with its repetitions,
  exactly the paths whose extension is one of the ten listed or whose extension is empty
  and which start with \<open>libcxx/include\<close>; the Python filter keeps exactly the paths whose
  extension is \<open>.py\<close>; filtering twice is filtering once; and the two filters send
  \<open>["a.cpp","b.py","c.h","d.txt"]\<close> to \<open>["a.cpp","c.h"]\<close> and \<open>["b.py"]\<close>.
\<close>

theorem filter_changed_files_spec:
  "filter_changed_files ClangFormatHelper files =
     filter (\<lambda>p. snd (splitext p) \<in>
                   {''.cpp'', ''.c'', ''.cc'', ''.h'', ''.hpp'', ''.hxx'', ''.cxx'', ''.inc'', ''.cppm'', ''.cl''}
                 \<or> (snd (splitext p) = [] \<and> startswith p ''libcxx/include'')) files
   \<and> filter_changed_files RuffFormatHelper files = filter (\<lambda>p. snd (splitext p) = ''.py'') files
   \<and> filter_changed_files h (filter_changed_files h files) = filter_changed_files h files
   \<and> filter_changed_files ClangFormatHelper [''a.cpp'', ''b.py'', ''c.h'', ''d.txt''] = [''a.cpp'', ''c.h'']
   \<and> filter_changed_files RuffFormatHelper [''a.cpp'', ''b.py'', ''c.h'', ''d.txt''] = [''b.py'']"
proof -
  have c: "filter_changed_files ClangFormatHelper fs =
     filter (\<lambda>p. snd (splitext p) \<in>
                   {''.cpp'', ''.c'', ''.cc'', ''.h'', ''.hpp'', ''.hxx'', ''.cxx'', ''.inc'', ''.cppm'', ''.cl''}
                 \<or> (snd (splitext p) = [] \<and> startswith p ''libcxx/include'')) fs" for fs
    by (simp add: clang_filter_loop_filter clang_extensions_def)
  have r: "filter_changed_files RuffFormatHelper fs = filter (\<lambda>p. snd (splitext p) = ''.py'') fs" for fs
    by (simp add: ruff_filter_loop_filter)
  have i: "filter_changed_files h (filter_changed_files h files) = filter_changed_files h files"
    by (cases h) (simp_all only: c r filter_filter conj_absorb)
  show ?thesis
    using c r i filter_examples by blast
qed

subsection \<open>The outcome of a run\<close>

lemma warnings_differ: "warning_issues h \<noteq> warning_no_diff h"
  by (simp add: warning_issues_def warning_no_diff_def)

lemma printed_warnings_differ:
  "print_line (codepoints (warning_issues h)) \<noteq> print_line (codepoints (warning_no_diff h))"
  by (simp add: print_line_def codepoints_def warning_issues_def warning_no_diff_def)

lemma push_empty: "push cp r = Inr t \<Longrightarrow> t \<noteq> []"
  by (auto simp: push_def split: sum.splits)

lemma decode_utf8_empty: "decode_utf8 b = Inr t \<Longrightarrow> t = [] \<longleftrightarrow> b = []"
proof (cases b)
  case Nil
  then show "decode_utf8 b = Inr t \<Longrightarrow> t = [] \<longleftrightarrow> b = []" by simp
next
  case (Cons b0 bs)
  assume "decode_utf8 b = Inr t"
  then have "t \<noteq> []"
    unfolding Cons decode_utf8.simps Let_def
    by (auto dest: push_empty split: if_splits list.splits)
  then show "t = [] \<longleftrightarrow> b = []"
    using Cons by simp
qed

lemma decode_utf8_error: "decode_utf8 b = Inl e \<Longrightarrow> e = UnicodeDecodeError"
proof (induction "length b" arbitrary: b e rule: less_induct)
  case less
  show ?case
  proof (cases b)
    case Nil
    with less.prems show ?thesis by simp
  next
    case (Cons b0 bs)
    have IH: "decode_utf8 r = Inl e' \<Longrightarrow> length r < length b \<Longrightarrow> e' = UnicodeDecodeError" for r e'
      using less.hyps by blast
    from less.prems show ?thesis
      unfolding Cons decode_utf8.simps Let_def
      apply (auto simp: push_def split: if_splits list.splits sum.splits)
             apply (erule IH, simp add: Cons)+
      done
  qed
qed

lemma started_format_run:
  assumes "filter_changed_files h files \<noteq> []"
    and "run_proc (format_cmd h env iter (filter_changed_files h files) args) = Inr proc"
    and "h = ClangFormatHelper \<or> verbose args \<longrightarrow> valid_utf8 (stderr proc)"
    and "h = RuffFormatHelper \<or> returncode proc \<noteq> 0 \<longrightarrow> valid_utf8 (stdout proc)"
  shows "fst (format_run h env iter run_proc files args) =
       (if returncode proc \<noteq> 0
        then (case decode_utf8 (stdout proc) of Inl e \<Rightarrow> Inl e | Inr diff \<Rightarrow> Inr (Some diff))
        else Inr None)
     \<and> (returncode proc \<noteq> 0 \<longrightarrow> \<not> isl (decode_utf8 (stdout proc)))"
  using assms
  by (cases h)
     (auto simp: Let_def valid_utf8_def isl_def split: sum.splits)

lemma run_by_outcome:
  assumes "filter_changed_files h files \<noteq> []"
    and "run_proc (format_cmd h env iter (filter_changed_files h files) args) = Inr proc"
    and "h = ClangFormatHelper \<or> verbose args \<longrightarrow> valid_utf8 (stderr proc)"
    and "h = RuffFormatHelper \<or> returncode proc \<noteq> 0 \<longrightarrow> valid_utf8 (stdout proc)"
  shows "run h env iter run_proc files args =
       (case classify (returncode proc) (stdout proc) of
          Clean \<Rightarrow> (Inr True, snd (format_run h env iter run_proc files args))
        | NeedsChanges \<Rightarrow>
            (Inr False, snd (format_run h env iter run_proc files args)
                          @ print_line (codepoints (warning_issues h)))
        | InfrastructureFailure \<Rightarrow>
            (Inr False, snd (format_run h env iter run_proc files args)
                          @ print_line (codepoints (warning_no_diff h))))"
proof (cases "returncode proc = 0")
  case True
  then have "fst (format_run h env iter run_proc files args) = Inr None"
    using started_format_run [where run_proc = run_proc, OF assms] by simp
  then show ?thesis
    using True by (cases "format_run h env iter run_proc files args") (simp add: run_def classify_def)
next
  case False
  then obtain diff where d: "decode_utf8 (stdout proc) = Inr diff"
    using started_format_run [where run_proc = run_proc, OF assms] by (cases "decode_utf8 (stdout proc)") auto
  then have "fst (format_run h env iter run_proc files args) = Inr (Some diff)"
    using started_format_run [where run_proc = run_proc, OF assms] False by simp
  moreover have "diff = [] \<longleftrightarrow> stdout proc = []"
    using d by (rule decode_utf8_empty)
  ultimately show ?thesis
    using False by (cases "format_run h env iter run_proc files args") (auto simp: run_def classify_def)
qed

lemma run_raises:
  assumes "filter_changed_files h files \<noteq> []"
    and "run_proc (format_cmd h env iter (filter_changed_files h files) args) = Inr proc"
    and "\<not> ((h = ClangFormatHelper \<or> verbose args \<longrightarrow> valid_utf8 (stderr proc))
           \<and> (h = RuffFormatHelper \<or> returncode proc \<noteq> 0 \<longrightarrow> valid_utf8 (stdout proc)))"
  shows "fst (run h env iter run_proc files args) = Inl UnicodeDecodeError"
  using assms
  by (cases h)
     (auto simp: run_def Let_def valid_utf8_def isl_def dest: decode_utf8_error split: sum.splits)

lemma run_not_started:
  assumes "filter_changed_files h files \<noteq> []"
    and "run_proc (format_cmd h env iter (filter_changed_files h files) args) = Inl e"
  shows "fst (run h env iter run_proc files args) = Inl e"
  using assms
  by (cases h) (auto simp: run_def Let_def)

text \<open>
  C8, as the code has it. Take a helper whose filtered file list is not empty, a tool that
  starts, and captured streams that are valid UTF-8 wherever the helper decodes them: the
  native-code helper decodes the standard error always and the standard output after a
  non-zero exit code; the Python helper decodes the standard output always and the
  standard error in verbose mode. Then what \<open>run\<close> returns and prints is decided by the
  exit code and the captured standard output: exit code 0 is Clean, \<open>run\<close> returns \<open>True\<close>
  and prints no warning; a non-zero code with output is NeedsChanges, \<open>run\<close> returns
  \<open>False\<close> after the warning that names the formatter and says it detected formatting
  issues; a non-zero code without output is InfrastructureFailure, \<open>run\<close> returns \<open>False\<close>
  after the warning that the formatter failed without printing a diff; and the two
  warnings are different texts.
\<close>

theorem run_classification:
  assumes "filter_changed_files h files \<noteq> []"
    and "run_proc (format_cmd h env iter (filter_changed_files h files) args) = Inr proc"
    and "h = ClangFormatHelper \<or> verbose args \<longrightarrow> valid_utf8 (stderr proc)"
    and "h = RuffFormatHelper \<or> returncode proc \<noteq> 0 \<longrightarrow> valid_utf8 (stdout proc)"
  shows "(let log = snd (format_run h env iter run_proc files args)
          in run h env iter run_proc files args =
               (case classify (returncode proc) (stdout proc) of
                  Clean \<Rightarrow> (Inr True, log)
                | NeedsChanges \<Rightarrow> (Inr False, log @ print_line (codepoints (warning_issues h)))
                | InfrastructureFailure \<Rightarrow>
                    (Inr False, log @ print_line (codepoints (warning_no_diff h)))))
     \<and> warning_issues h \<noteq> warning_no_diff h
     \<and> print_line (codepoints (warning_issues h)) \<noteq> print_line (codepoints (warning_no_diff h))
     \<and> warning_issues h = ''Warning: '' @ friendly_name h @ '', '' @ name h
          @ '' detected some issues with your code formatting...''
     \<and> warning_no_diff h = ''Warning: The '' @ friendly_name h
          @ '' failed without printing a diff. Check the logs for stderr output. :warning:''"
  using run_by_outcome [where run_proc = run_proc, OF assms] warnings_differ printed_warnings_differ
  by (simp add: Let_def warning_issues_def warning_no_diff_def)

theorem run_classification_witness:
  "run RuffFormatHelper Map.empty (\<lambda>S. [])
      (\<lambda>cmd. Inr \<lparr>returncode = 1, stdout = [], stderr = [0xFF]\<rparr>) [''a.cpp'', ''b.py'']
      \<lparr>start_rev = None, end_rev = None, changed_files = None, py_style_config = None, verbose = False\<rparr>
    = (Inr False, print_line (codepoints ''Warning: The Python code formatter failed without printing a diff. Check the logs for stderr output. :warning:''))
   \<and> run ClangFormatHelper Map.empty (\<lambda>S. [''cpp''])
      (\<lambda>cmd. Inr \<lparr>returncode = 1, stdout = [0x2B, 0xC3, 0xA9], stderr = []\<rparr>) [''a.cpp'', ''b.py'']
      \<lparr>start_rev = None, end_rev = None, changed_files = None, py_style_config = None, verbose = False\<rparr>
    = (Inr False, print_line (codepoints ''Warning: C/C++ code formatter, clang-format detected some issues with your code formatting...''))
   \<and> run ClangFormatHelper Map.empty (\<lambda>S. [''cpp''])
      (\<lambda>cmd. Inr \<lparr>returncode = 0, stdout = [0xFF], stderr = []\<rparr>) [''a.cpp'', ''b.py'']
      \<lparr>start_rev = None, end_rev = None, changed_files = None, py_style_config = None, verbose = False\<rparr>
    = (Inr True, [])"
proof -
  let ?args = "\<lparr>start_rev = None, end_rev = None, changed_files = None, py_style_config = None, verbose = False\<rparr>"
  let ?pa = "\<lparr>returncode = 1, stdout = [], stderr = [0xFF]\<rparr>"
  let ?pb = "\<lparr>returncode = 1, stdout = [0x2B, 0xC3, 0xA9], stderr = []\<rparr>"
  let ?pd = "\<lparr>returncode = 0, stdout = [0xFF], stderr = []\<rparr>"
  have r: "filter_changed_files RuffFormatHelper [''a.cpp'', ''b.py''] = [''b.py'']"
    by code_simp
  have c: "filter_changed_files ClangFormatHelper [''a.cpp'', ''b.py''] = [''a.cpp'']"
    by code_simp
  have nr: "filter_changed_files RuffFormatHelper [''a.cpp'', ''b.py''] \<noteq> []"
    by (simp only: r) simp
  have nc: "filter_changed_files ClangFormatHelper [''a.cpp'', ''b.py''] \<noteq> []"
    by (simp only: c) simp
  have ea: "RuffFormatHelper = ClangFormatHelper \<or> verbose ?args \<longrightarrow> valid_utf8 (stderr ?pa)"
    by simp
  have oa: "RuffFormatHelper = RuffFormatHelper \<or> returncode ?pa \<noteq> 0 \<longrightarrow> valid_utf8 (stdout ?pa)"
    by (simp add: valid_utf8_def)
  have eb: "ClangFormatHelper = ClangFormatHelper \<or> verbose ?args \<longrightarrow> valid_utf8 (stderr ?pb)"
    by (simp add: valid_utf8_def)
  have ob: "ClangFormatHelper = RuffFormatHelper \<or> returncode ?pb \<noteq> 0 \<longrightarrow> valid_utf8 (stdout ?pb)"
    by (simp add: valid_utf8_def continuation_def push_def)
  have ed: "ClangFormatHelper = ClangFormatHelper \<or> verbose ?args \<longrightarrow> valid_utf8 (stderr ?pd)"
    by (simp add: valid_utf8_def)
  have od: "ClangFormatHelper = RuffFormatHelper \<or> returncode ?pd \<noteq> 0 \<longrightarrow> valid_utf8 (stdout ?pd)"
    by simp
  have la: "snd (format_run RuffFormatHelper Map.empty (\<lambda>S. []) (\<lambda>cmd. Inr ?pa) [''a.cpp'', ''b.py''] ?args) = []"
    by (simp only: format_run.simps r Let_def) simp
  have lb: "snd (format_run ClangFormatHelper Map.empty (\<lambda>S. [''cpp'']) (\<lambda>cmd. Inr ?pb) [''a.cpp'', ''b.py''] ?args) = []"
    by (simp only: format_run.simps c Let_def) (simp add: continuation_def push_def)
  have ld: "snd (format_run ClangFormatHelper Map.empty (\<lambda>S. [''cpp'']) (\<lambda>cmd. Inr ?pd) [''a.cpp'', ''b.py''] ?args) = []"
    by (simp only: format_run.simps c Let_def) simp
  have ca: "classify (returncode ?pa) (stdout ?pa) = InfrastructureFailure"
    and cb: "classify (returncode ?pb) (stdout ?pb) = NeedsChanges"
    and cd: "classify (returncode ?pd) (stdout ?pd) = Clean"
    by (simp_all add: classify_def)
  have wa: "warning_no_diff RuffFormatHelper = ''Warning: The Python code formatter failed without printing a diff. Check the logs for stderr output. :warning:''"
    by (simp add: warning_no_diff_def)
  have wb: "warning_issues ClangFormatHelper = ''Warning: C/C++ code formatter, clang-format detected some issues with your code formatting...''"
    by (simp add: warning_issues_def)
  note a = run_classification [where h = RuffFormatHelper and env = Map.empty and iter = "\<lambda>S. []"
        and run_proc = "\<lambda>cmd. Inr ?pa" and proc = ?pa and args = ?args, OF nr refl ea oa,
        unfolded Let_def la ca outcome.case append_Nil wa]
  note b = run_classification [where h = ClangFormatHelper and env = Map.empty and iter = "\<lambda>S. [''cpp'']"
        and run_proc = "\<lambda>cmd. Inr ?pb" and proc = ?pb and args = ?args, OF nc refl eb ob,
        unfolded Let_def lb cb outcome.case append_Nil wb]
  note d = run_classification [where h = ClangFormatHelper and env = Map.empty and iter = "\<lambda>S. [''cpp'']"
        and run_proc = "\<lambda>cmd. Inr ?pd" and proc = ?pd and args = ?args, OF nc refl ed od,
        unfolded Let_def ld cd outcome.case]
  show ?thesis
    using a b d by blast
qed

text \<open>
  C8 as it is written does not hold for every tool invocation: when the native-code
  formatter exits with code 1 and the single byte \<open>0xFF\<close> on its standard output, or with
  code 0 and that byte on its standard error, \<open>run\<close> ends in \<open>UnicodeDecodeError\<close>: it
  returns neither \<open>True\<close> nor \<open>False\<close> and prints neither of the two warnings.
\<close>

theorem run_undecodable_counterexample:
  "filter_changed_files ClangFormatHelper [''a.cpp''] = [''a.cpp'']
   \<and> classify 1 [0xFF] = NeedsChanges
   \<and> run ClangFormatHelper Map.empty (\<lambda>S. [''cpp''])
        (\<lambda>cmd. Inr \<lparr>returncode = 1, stdout = [0xFF], stderr = []\<rparr>) [''a.cpp'']
        \<lparr>start_rev = Some ''HEAD~1'', end_rev = Some ''HEAD'', changed_files = Some ''a.cpp'',
           py_style_config = Some ''ruff.toml'', verbose = True\<rparr>
      = (Inl UnicodeDecodeError,
         print_line (codepoints ''Running: git-clang-format --diff HEAD~1 HEAD --extensions cpp -- a.cpp'')
         @ print_line (codepoints ''error: clang-format exited with code 1''))
   \<and> classify 0 [] = Clean
   \<and> run ClangFormatHelper Map.empty (\<lambda>S. [''cpp''])
        (\<lambda>cmd. Inr \<lparr>returncode = 0, stdout = [], stderr = [0xFF]\<rparr>) [''a.cpp'']
        \<lparr>start_rev = Some ''HEAD~1'', end_rev = Some ''HEAD'', changed_files = Some ''a.cpp'',
           py_style_config = Some ''ruff.toml'', verbose = True\<rparr>
      = (Inl UnicodeDecodeError,
         print_line (codepoints ''Running: git-clang-format --diff HEAD~1 HEAD --extensions cpp -- a.cpp''))"
proof -
  let ?args = "\<lparr>start_rev = Some ''HEAD~1'', end_rev = Some ''HEAD'', changed_files = Some ''a.cpp'',
           py_style_config = Some ''ruff.toml'', verbose = True\<rparr>"
  have c: "filter_changed_files ClangFormatHelper [''a.cpp''] = [''a.cpp'']"
    by code_simp
  have cmd: "clang_cf_cmd Map.empty (\<lambda>S. [''cpp'']) [''a.cpp''] ?args
      = [''git-clang-format'', ''--diff'', ''HEAD~1'', ''HEAD'', ''--extensions'', ''cpp'', ''--'', ''a.cpp'']"
    by (simp add: clang_cf_cmd_def clang_fmt_path_def truthy_def extensions_arg_def)
  have line: "running_line [''git-clang-format'', ''--diff'', ''HEAD~1'', ''HEAD'', ''--extensions'', ''cpp'', ''--'', ''a.cpp'']
      = print_line (codepoints ''Running: git-clang-format --diff HEAD~1 HEAD --extensions cpp -- a.cpp'')"
    by (simp add: running_line_def)
  have si: "show_int 1 = ''1''"
    by code_simp
  have ex: "exited_line ClangFormatHelper \<lparr>returncode = 1, stdout = [0xFF], stderr = []\<rparr>
      = print_line (codepoints ''error: clang-format exited with code 1'')"
    by (simp add: exited_line_def si)
  have 1: "run ClangFormatHelper Map.empty (\<lambda>S. [''cpp''])
        (\<lambda>cmd. Inr \<lparr>returncode = 1, stdout = [0xFF], stderr = []\<rparr>) [''a.cpp''] ?args
      = (Inl UnicodeDecodeError,
         print_line (codepoints ''Running: git-clang-format --diff HEAD~1 HEAD --extensions cpp -- a.cpp'')
         @ print_line (codepoints ''error: clang-format exited with code 1''))"
    by (simp only: run_def format_run.simps c cmd line Let_def) (simp add: ex)
  have 2: "run ClangFormatHelper Map.empty (\<lambda>S. [''cpp''])
        (\<lambda>cmd. Inr \<lparr>returncode = 0, stdout = [], stderr = [0xFF]\<rparr>) [''a.cpp''] ?args
      = (Inl UnicodeDecodeError,
         print_line (codepoints ''Running: git-clang-format --diff HEAD~1 HEAD --extensions cpp -- a.cpp''))"
    by (simp only: run_def format_run.simps c cmd line Let_def) simp
  show ?thesis
    using c 1 2 by (simp add: classify_def)
qed

subsection \<open>The extensions handed to the native-code formatter\<close>

lemma extensions_loop_image:
  "extensions_loop fs E = E \<union> (\<lambda>f. strip_chars CHR ''.'' (snd (splitext f))) ` set fs"
  by (induction fs arbitrary: E) auto

lemma clang_extension_no_comma:
  "e \<in> set clang_extensions \<or> e = [] \<Longrightarrow> CHR '','' \<notin> set (strip_chars CHR ''.'' e)"
  by (auto simp: clang_extensions_def strip_chars_def)

lemma clang_format_run_invokes:
  assumes "filter_changed_files ClangFormatHelper files \<noteq> []"
  shows "fst (format_run ClangFormatHelper env iter run_proc files args) =
     (case run_proc (clang_cf_cmd env iter (filter_changed_files ClangFormatHelper files) args) of
        Inl e \<Rightarrow> Inl e
      | Inr proc \<Rightarrow>
          (case decode_utf8 (stderr proc) of
             Inl e \<Rightarrow> Inl e
           | Inr err \<Rightarrow>
               if returncode proc \<noteq> 0
               then (case decode_utf8 (stdout proc) of Inl e \<Rightarrow> Inl e | Inr diff \<Rightarrow> Inr (Some diff))
               else Inr None))"
  using assms by (auto simp: Let_def split: sum.splits)

text \<open>
  C10. When the native-code filter selects a path with an empty extension, the set of
  extensions gathered for \<open>--extensions\<close> contains the empty string; in whatever order
  the set is joined, the entries of the comma-separated value are the elements of that
  set, the empty one among them; the value follows \<open>--extensions\<close> in the command line;
  and \<open>format_run\<close> starts the tool with that command line: what it returns or raises is
  what the tool does on it.
\<close>

theorem extensions_include_empty_entry:
  assumes sel: "p \<in> set (filter_changed_files ClangFormatHelper files)"
    and ext: "snd (splitext p) = []"
    and iter: "set (iter (extensions_loop (filter_changed_files ClangFormatHelper files) {}))
                 = extensions_loop (filter_changed_files ClangFormatHelper files) {}"
  shows "[] \<in> extensions_loop (filter_changed_files ClangFormatHelper files) {}
     \<and> split_on CHR '','' (extensions_arg iter (filter_changed_files ClangFormatHelper files))
         = iter (extensions_loop (filter_changed_files ClangFormatHelper files) {})
     \<and> [] \<in> set (split_on CHR '','' (extensions_arg iter (filter_changed_files ClangFormatHelper files)))
     \<and> (\<exists>front. clang_cf_cmd env iter (filter_changed_files ClangFormatHelper files) args =
           front @ [''--extensions'', extensions_arg iter (filter_changed_files ClangFormatHelper files), ''--'']
             @ filter_changed_files ClangFormatHelper files)
     \<and> fst (format_run ClangFormatHelper env iter run_proc files args) =
         (case run_proc (clang_cf_cmd env iter (filter_changed_files ClangFormatHelper files) args) of
            Inl e \<Rightarrow> Inl e
          | Inr proc \<Rightarrow>
              (case decode_utf8 (stderr proc) of
                 Inl e \<Rightarrow> Inl e
               | Inr err \<Rightarrow>
                   if returncode proc \<noteq> 0
                   then (case decode_utf8 (stdout proc) of Inl e \<Rightarrow> Inl e | Inr diff \<Rightarrow> Inr (Some diff))
                   else Inr None))"
proof -
  let ?cpp = "filter_changed_files ClangFormatHelper files"
  let ?S = "extensions_loop ?cpp {}"
  have "strip_chars CHR ''.'' (snd (splitext p)) \<in> ?S"
    using sel by (simp only: extensions_loop_image) blast
  then have mem: "[] \<in> ?S"
    by (simp add: ext strip_chars_def)
  have "\<forall>f\<in>set ?cpp. snd (splitext f) \<in> set clang_extensions \<or> snd (splitext f) = []"
    by (auto simp: clang_filter_loop_filter)
  then have "\<forall>x\<in>?S. CHR '','' \<notin> set x"
    using clang_extension_no_comma by (auto simp: extensions_loop_image)
  then have nocomma: "\<forall>x\<in>set (iter ?S). CHR '','' \<notin> set x"
    using iter by simp
  have ne: "iter ?S \<noteq> []"
    using mem iter by auto
  have entries: "split_on CHR '','' (extensions_arg iter ?cpp) = iter ?S"
    unfolding extensions_arg_def using split_on_join [OF ne nocomma] by simp
  then have entry: "[] \<in> set (split_on CHR '','' (extensions_arg iter ?cpp))"
    using mem iter by simp
  have cmd: "\<exists>front. clang_cf_cmd env iter ?cpp args =
           front @ [''--extensions'', extensions_arg iter ?cpp, ''--''] @ ?cpp"
    by (simp add: clang_cf_cmd_def)
  have "?cpp \<noteq> []"
    using sel by auto
  then have invoked: "fst (format_run ClangFormatHelper env iter run_proc files args) =
         (case run_proc (clang_cf_cmd env iter ?cpp args) of
            Inl e \<Rightarrow> Inl e
          | Inr proc \<Rightarrow>
              (case decode_utf8 (stderr proc) of
                 Inl e \<Rightarrow> Inl e
               | Inr err \<Rightarrow>
                   if returncode proc \<noteq> 0
                   then (case decode_utf8 (stdout proc) of Inl e \<Rightarrow> Inl e | Inr diff \<Rightarrow> Inr (Some diff))
                   else Inr None))"
    by (rule clang_format_run_invokes)
  show ?thesis
    using mem entries entry cmd invoked by blast
qed

theorem extensions_include_empty_entry_witness:
  "[] \<in> extensions_loop (filter_changed_files ClangFormatHelper [''libcxx/include/vector'', ''a.cpp'']) {}
   \<and> split_on CHR '','' (extensions_arg (\<lambda>S. [''cpp'', []])
         (filter_changed_files ClangFormatHelper [''libcxx/include/vector'', ''a.cpp''])) = [''cpp'', []]
   \<and> fst (format_run ClangFormatHelper Map.empty (\<lambda>S. [''cpp'', []])
        (\<lambda>cmd. if cmd = [''git-clang-format'', ''--diff'', ''--extensions'', ''cpp,'', ''--'',
                           ''libcxx/include/vector'', ''a.cpp'']
               then Inr \<lparr>returncode = 1, stdout = [0x2B], stderr = []\<rparr> else Inl OSError)
        [''libcxx/include/vector'', ''a.cpp'']
        \<lparr>start_rev = None, end_rev = None, changed_files = None, py_style_config = None, verbose = False\<rparr>)
      = Inr (Some [0x2B])"
proof -
  let ?args = "\<lparr>start_rev = None, end_rev = None, changed_files = None, py_style_config = None, verbose = False\<rparr>"
  let ?tool = "\<lambda>cmd. if cmd = [''git-clang-format'', ''--diff'', ''--extensions'', ''cpp,'', ''--'',
                           ''libcxx/include/vector'', ''a.cpp'']
               then Inr \<lparr>returncode = 1, stdout = [0x2B], stderr = []\<rparr> else Inl OSError"
  have f: "filter_changed_files ClangFormatHelper [''libcxx/include/vector'', ''a.cpp'']
             = [''libcxx/include/vector'', ''a.cpp'']"
    by code_simp
  have e: "snd (splitext ''libcxx/include/vector'') = []"
    by code_simp
  have s: "extensions_loop [''libcxx/include/vector'', ''a.cpp''] {} = {''cpp'', []}"
    by code_simp
  have p1: "''libcxx/include/vector''
      \<in> set (filter_changed_files ClangFormatHelper [''libcxx/include/vector'', ''a.cpp''])"
    by (simp only: f) simp
  have p3: "set ((\<lambda>S. [''cpp'', []])
        (extensions_loop (filter_changed_files ClangFormatHelper [''libcxx/include/vector'', ''a.cpp'']) {}))
      = extensions_loop (filter_changed_files ClangFormatHelper [''libcxx/include/vector'', ''a.cpp'']) {}"
    by (simp only: f s) auto
  have cmd: "clang_cf_cmd Map.empty (\<lambda>S. [''cpp'', []]) [''libcxx/include/vector'', ''a.cpp''] ?args
      = [''git-clang-format'', ''--diff'', ''--extensions'', ''cpp,'', ''--'',
         ''libcxx/include/vector'', ''a.cpp'']"
    by (simp add: clang_cf_cmd_def clang_fmt_path_def truthy_def extensions_arg_def)
  have tool: "?tool [''git-clang-format'', ''--diff'', ''--extensions'', ''cpp,'', ''--'',
         ''libcxx/include/vector'', ''a.cpp''] = Inr \<lparr>returncode = 1, stdout = [0x2B], stderr = []\<rparr>"
    by (simp only: if_True refl)
  have dec: "(case decode_utf8 (stderr \<lparr>returncode = 1, stdout = [0x2B], stderr = []\<rparr>) of
             Inl e \<Rightarrow> Inl e
           | Inr err \<Rightarrow>
               if returncode \<lparr>returncode = 1, stdout = [0x2B::byte], stderr = []\<rparr> \<noteq> 0
               then (case decode_utf8 (stdout \<lparr>returncode = 1, stdout = [0x2B], stderr = []\<rparr>) of
                       Inl e \<Rightarrow> Inl e | Inr diff \<Rightarrow> Inr (Some diff))
               else Inr None) = Inr (Some [0x2B])"
    by (simp add: push_def)
  note w = extensions_include_empty_entry [OF p1 e p3, where env = Map.empty and args = ?args
      and run_proc = ?tool, unfolded f cmd tool sum.case dec]
  show ?thesis
    unfolding f using w by blast
qed

end
